theory Spec2Isabelle
  imports Complex_Main
begin

section \<open>The audio service of neon_slice: data model\<close>

text \<open>
  The class \<^verbatim>\<open>AudioService\<close> drives a Web Audio graph from a 16-step look-ahead
  scheduler. JavaScript numbers are IEEE doubles. The times of the transport and of the
  voices are modelled as reals with exact arithmetic: rounding to the nearest double is
  monotone, so it keeps the order of these times, which is what the statements about
  scheduling are about. Where a statement is about the value of a number (the step advance
  in \<open>nextNote_rounded\<close>, the samples written to the buffers), every operation is followed
  by its rounding \<open>round_double\<close>, and a store into a \<^verbatim>\<open>Float32Array\<close> by
  \<open>Math_fround\<close>. The step counter, which only ever holds small non-negative integers,
  is a \<^typ>\<open>nat\<close>.
  The value read from \<^verbatim>\<open>ctx.currentTime\<close> is an argument \<open>now\<close> of every method that
  reads it: the engine's clock does not move while one method runs.
  \<^verbatim>\<open>Math.random\<close> is a stream \<open>rnd\<close> of draws; the state counts the calls made
  so far, so the k-th call of a run returns \<open>rnd k\<close>. \<^verbatim>\<open>Math.pow\<close>, which the
  language leaves to the engine to approximate, is an argument \<open>pow\<close>.
\<close>

datatype intensity_level = Low | High

datatype context_state = Suspended | Running

record audio_context =
  sampleRate :: real
  ctx_state :: context_state

text \<open>The automation calls the service issues on an audio parameter, in call order.\<close>

datatype automation =
    SetValue real
  | SetValueAtTime real real
  | ExponentialRampToValueAtTime real real
  | LinearRampToValueAtTime real real
  | SetTargetAtTime real real real

datatype instrument = Kick | Snare | HiHat | Bass | Synth | SliceSfx | BombSfx

datatype wave = Sine | Sawtooth | Square

datatype voice_source = Oscillator wave "automation list" | BufferSource "real list"

datatype filter_kind = Lowpass | Highpass

datatype bus = MasterBus | ReverbBus

text \<open>
  One voice: the nodes a \<^verbatim>\<open>play...\<close> method creates and connects, with the automation
  of the source's frequency, of the filter's cutoff and of the gain, the buses the gain is
  connected to, and the times given to \<^verbatim>\<open>start\<close> and \<^verbatim>\<open>stop\<close>.
\<close>

record voice =
  instrument :: instrument
  source :: voice_source
  biquad :: "(filter_kind \<times> automation list) option"
  envelope :: "automation list"
  outputs :: "bus list"
  startTime :: real
  stopTime :: "real option"

text \<open>
  The fields of the class, followed by the parts of the browser its methods act on: the
  voices handed to the audio engine so far, the number of \<^verbatim>\<open>Math.random\<close> calls
  made, the timeouts of \<^verbatim>\<open>window\<close> that are pending and the number of timeouts
  ever set (\<^verbatim>\<open>setTimeout\<close> returns a fresh positive id). A gain node is the list
  of automation calls on its gain; the convolver is its buffer, one sample list per channel.
\<close>

record audio_service =
  ctx :: "audio_context option"
  isMuted :: bool
  isPlaying :: bool
  tempo :: real
  nextNoteTime :: real
  current16thNote :: nat
  timerID :: "nat option"
  intensity :: intensity_level
  masterGain :: "automation list option"
  reverbNode :: "real list list option"
  voices :: "voice list"
  randomCalls :: nat
  pendingTimers :: "nat set"
  timerCount :: nat

text \<open>The fields that are initialised once and never assigned.\<close>

definition lookahead :: real where
  "lookahead = 25"

definition scheduleAheadTime :: real where
  "scheduleAheadTime = 1 / 10"

definition scale :: "real list" where
  "scale = [13081 / 100, 15556 / 100, 17461 / 100, 196, 23308 / 100, 26163 / 100]"

definition new_AudioService :: audio_service where
  "new_AudioService =
     \<lparr> ctx = None, isMuted = False, isPlaying = False, tempo = 120, nextNoteTime = 0,
       current16thNote = 0, timerID = None, intensity = Low, masterGain = None,
       reverbNode = None, voices = [], randomCalls = 0, pendingTimers = {}, timerCount = 0 \<rparr>"

section \<open>The transport\<close>

text \<open>
  \<^verbatim>\<open>nextNote\<close>: advance the event time by a sixteenth note and the step counter by
  one, wrapping at 16. (For \<open>tempo = 0\<close> JavaScript's quotient is \<open>Infinity\<close>, HOL's is
  0; the class only ever stores 120, 100 and 135.)
\<close>

definition nextNote :: "audio_service \<Rightarrow> audio_service" where
  "nextNote s =
     (let secondsPerBeat = 60 / tempo s;
          s1 = s\<lparr>nextNoteTime := nextNoteTime s + (1 / 4) * secondsPerBeat\<rparr>;
          s2 = s1\<lparr>current16thNote := current16thNote s1 + 1\<rparr>
      in if current16thNote s2 = 16 then s2\<lparr>current16thNote := 0\<rparr> else s2)"


section \<open>Floating-point rounding\<close>

text \<open>
  Rounding to nearest, ties to even, onto the binary floating-point numbers with \<open>p\<close>
  significant bits and least normal exponent \<open>emin\<close>. For \<open>0 < x\<close>, \<open>binade k x\<close> is the
  exponent \<open>e\<close> with \<open>2 ^ e \<le> x < 2 ^ (e + 1)\<close>, found in at most \<open>k\<close> halvings or doublings;
  1100 of them reach every double. Below the least normal exponent the spacing stays that
  of the first binade (the subnormal numbers). A result beyond the largest finite number
  would be \<open>Infinity\<close>; no number of this program comes near it.
\<close>

definition round_even :: "real \<Rightarrow> int" where
  "round_even x =
     (let f = \<lfloor>x\<rfloor>; r = x - of_int f
      in if r < 1 / 2 then f else if 1 / 2 < r then f + 1 else if even f then f else f + 1)"

primrec binade :: "nat \<Rightarrow> real \<Rightarrow> int" where
  "binade 0 x = 0"
| "binade (Suc k) x =
     (if 2 \<le> x then binade k (x / 2) + 1
      else if x < 1 then binade k (x * 2) - 1
      else 0)"

definition round_binary :: "nat \<Rightarrow> int \<Rightarrow> real \<Rightarrow> real" where
  "round_binary p emin x =
     (if x = 0 then 0
      else
        (let e = max (binade 1100 \<bar>x\<bar>) emin;
             q = 2 powi (e - int p + 1)
         in of_int (round_even (x / q)) * q))"

text \<open>The double nearest a real, and the float nearest a double (\<^verbatim>\<open>Math.fround\<close>).\<close>

definition round_double :: "real \<Rightarrow> real" where
  "round_double = round_binary 53 (- 1022)"

definition Math_fround :: "real \<Rightarrow> real" where
  "Math_fround = round_binary 24 (- 126)"

text \<open>
  \<^verbatim>\<open>nextNote\<close> with the rounding \<open>fl\<close> of each of its operations written out: the
  quotient, the product and the sum. Without rounding it is \<open>nextNote\<close>; with
  \<open>round_double\<close> it is the arithmetic the code runs.
\<close>

definition nextNote_rounded :: "(real \<Rightarrow> real) \<Rightarrow> audio_service \<Rightarrow> audio_service" where
  "nextNote_rounded fl s =
     (let secondsPerBeat = fl (60 / tempo s);
          s1 = s\<lparr>nextNoteTime := fl (nextNoteTime s + fl ((1 / 4) * secondsPerBeat))\<rparr>;
          s2 = s1\<lparr>current16thNote := current16thNote s1 + 1\<rparr>
      in if current16thNote s2 = 16 then s2\<lparr>current16thNote := 0\<rparr> else s2)"

section \<open>Buffers, noise and the impulse response\<close>

text \<open>
  One \<^verbatim>\<open>Math.pow\<close> the language allows: the correctly rounded power, on a base that
  is not negative (1 for the exponent 0, also at base 0). It stands for the engine's
  function in the examples.
\<close>

definition Math_pow :: "real \<Rightarrow> real \<Rightarrow> real" where
  "Math_pow b e = round_double (if e = 0 then 1 else b powr e)"

text \<open>
  \<^verbatim>\<open>createBuffer(channels, length, rate)\<close>: zero-filled channels; a fractional
  length is truncated by the conversion to an unsigned integer.
\<close>

definition createBuffer :: "nat \<Rightarrow> real \<Rightarrow> real list list" where
  "createBuffer numberOfChannels len = replicate numberOfChannels (replicate (nat \<lfloor>len\<rfloor>) 0)"

text \<open>
  The loop of \<^verbatim>\<open>createImpulseResponse\<close>. The loop state is the two channels and the
  number of \<^verbatim>\<open>Math.random\<close> calls made. The channels are \<^verbatim>\<open>Float32Array\<close>s:
  the double computed for a sample is stored as the float nearest to it. A write past the
  end of a typed array is ignored in JavaScript, as \<open>xs[i := v]\<close> is in HOL.
\<close>

function impulse_loop ::
  "(real \<Rightarrow> real \<Rightarrow> real) \<Rightarrow> (nat \<Rightarrow> real) \<Rightarrow> real \<Rightarrow> real \<Rightarrow> bool \<Rightarrow> nat \<Rightarrow>
   real list \<times> real list \<times> nat \<Rightarrow> real list \<times> real list \<times> nat" where
  "impulse_loop pow rnd len decay reverse i (left, right, k) =
     (if real i < len then
        (let n = (if reverse then round_double (len - real i) else real i);
             left' = left[i := Math_fround (round_double
                       (round_double (round_double (rnd k * 2) - 1) *
                        pow (round_double (1 - round_double (n / len))) decay))];
             right' = right[i := Math_fround (round_double
                       (round_double (round_double (rnd (k + 1) * 2) - 1) *
                        pow (round_double (1 - round_double (n / len))) decay))]
         in impulse_loop pow rnd len decay reverse (i + 1) (left', right', k + 2))
      else (left, right, k))"
  by pat_completeness auto
termination
proof (relation "measure (\<lambda>(pow, rnd, len, decay, reverse, i, st). nat \<lceil>len\<rceil> - i)")
  show "wf (measure (\<lambda>(pow, rnd, len, decay, reverse, i, st). nat \<lceil>len :: real\<rceil> - i))"
    by simp
next
  fix pow :: "real \<Rightarrow> real \<Rightarrow> real" and rnd :: "nat \<Rightarrow> real" and len decay :: real
    and reverse :: bool and i :: nat and left right :: "real list" and k :: nat and x xa xb
  assume "real i < len"
  then have "int i < \<lceil>len\<rceil>"
    by (simp add: less_ceiling_iff)
  then have "i < nat \<lceil>len\<rceil>"
    by linarith
  then show "((pow, rnd, len, decay, reverse, i + 1, xa, xb, k + 2),
              (pow, rnd, len, decay, reverse, i, left, right, k))
       \<in> measure (\<lambda>(pow, rnd, len, decay, reverse, i, st). nat \<lceil>len\<rceil> - i)"
    by simp
qed

definition createImpulseResponse ::
  "(real \<Rightarrow> real \<Rightarrow> real) \<Rightarrow> (nat \<Rightarrow> real) \<Rightarrow> audio_context \<Rightarrow> real \<Rightarrow> real \<Rightarrow> bool \<Rightarrow> nat \<Rightarrow>
   real list list \<times> nat" where
  "createImpulseResponse pow rnd c duration decay reverse k =
     (let len = round_double (sampleRate c * duration);
          impulse = createBuffer 2 len;
          (left, right, k') = impulse_loop pow rnd len decay reverse 0 (impulse ! 0, impulse ! 1, k)
      in ([left, right], k'))"

text \<open>
  The noise loop that \<^verbatim>\<open>playBombSfx\<close>, \<^verbatim>\<open>playSnare\<close> and \<^verbatim>\<open>playHiHat\<close> each
  write out: a one-channel buffer of \<open>sampleRate * seconds\<close> samples, each the float
  nearest the double \<open>random * 2 - 1\<close>. The duration enters as the double of its literal.
\<close>

function noise_loop ::
  "(nat \<Rightarrow> real) \<Rightarrow> real \<Rightarrow> nat \<Rightarrow> real list \<times> nat \<Rightarrow> real list \<times> nat" where
  "noise_loop rnd bufferSize i (data, k) =
     (if real i < bufferSize
      then noise_loop rnd bufferSize (i + 1)
             (data[i := Math_fround (round_double (round_double (rnd k * 2) - 1))], k + 1)
      else (data, k))"
  by pat_completeness auto
termination
proof (relation "measure (\<lambda>(rnd, bufferSize, i, st). nat \<lceil>bufferSize\<rceil> - i)")
  show "wf (measure (\<lambda>(rnd, bufferSize, i, st). nat \<lceil>bufferSize :: real\<rceil> - i))"
    by simp
next
  fix rnd :: "nat \<Rightarrow> real" and bufferSize :: real and i :: nat
    and data :: "real list" and k :: nat
  assume "real i < bufferSize"
  then have "int i < \<lceil>bufferSize\<rceil>"
    by (simp add: less_ceiling_iff)
  then have "i < nat \<lceil>bufferSize\<rceil>"
    by linarith
  then show "((rnd, bufferSize, i + 1,
               data[i := Math_fround (round_double (round_double (rnd k * 2) - 1))], k + 1),
              (rnd, bufferSize, i, data, k))
       \<in> measure (\<lambda>(rnd, bufferSize, i, st). nat \<lceil>bufferSize\<rceil> - i)"
    by simp
qed

definition noise_buffer :: "(nat \<Rightarrow> real) \<Rightarrow> audio_context \<Rightarrow> real \<Rightarrow> nat \<Rightarrow> real list \<times> nat" where
  "noise_buffer rnd c seconds k =
     (let bufferSize = round_double (sampleRate c * round_double seconds);
          buffer = createBuffer 1 bufferSize
      in noise_loop rnd bufferSize 0 (buffer ! 0, k))"

text \<open>The two loops are unfolded one iteration at a time, where a proof asks for it.\<close>

declare impulse_loop.simps [simp del] noise_loop.simps [simp del]

section \<open>Initialisation, mute and the one-shot effects\<close>

text \<open>
  \<^verbatim>\<open>init\<close>: \<open>device\<close> is the context that \<^verbatim>\<open>new AudioContext()\<close> returns in this
  browser and \<open>pow\<close> the engine's \<^verbatim>\<open>Math.pow\<close>. \<^verbatim>\<open>resume()\<close> is taken to succeed at
  once.
\<close>

definition init ::
  "(real \<Rightarrow> real \<Rightarrow> real) \<Rightarrow> (nat \<Rightarrow> real) \<Rightarrow> audio_context \<Rightarrow> audio_service \<Rightarrow> audio_service" where
  "init pow rnd device s =
     (let s1 = (case ctx s of
                  None \<Rightarrow>
                    (let (impulse, k) = createImpulseResponse pow rnd device 2 2 False (randomCalls s)
                     in s\<lparr>ctx := Some device, masterGain := Some [SetValue (4 / 10)],
                          reverbNode := Some impulse, randomCalls := k\<rparr>)
                | Some c \<Rightarrow> s)
      in case ctx s1 of
           None \<Rightarrow> s1
         | Some c \<Rightarrow>
             if ctx_state c = Suspended then s1\<lparr>ctx := Some (c\<lparr>ctx_state := Running\<rparr>)\<rparr> else s1)"

definition playSliceSfx :: "real \<Rightarrow> audio_service \<Rightarrow> audio_service" where
  "playSliceSfx now s =
     (if ctx s = None \<or> isMuted s then s
      else
        (let t = now
         in s\<lparr>voices := voices s @
              [\<lparr> instrument = SliceSfx,
                 source = Oscillator Sawtooth
                   [SetValueAtTime 1200 t, ExponentialRampToValueAtTime 100 (t + 15 / 100)],
                 biquad = None,
                 envelope = [SetValueAtTime (3 / 10) t,
                             ExponentialRampToValueAtTime (1 / 100) (t + 15 / 100)],
                 outputs = [MasterBus],
                 startTime = t,
                 stopTime = Some (t + 15 / 100) \<rparr>]\<rparr>))"

definition playBombSfx :: "(nat \<Rightarrow> real) \<Rightarrow> real \<Rightarrow> audio_service \<Rightarrow> audio_service" where
  "playBombSfx rnd now s =
     (case ctx s of
        None \<Rightarrow> s
      | Some c \<Rightarrow>
          if isMuted s then s
          else
            (let t = now;
                 (data, k) = noise_buffer rnd c (1 / 2) (randomCalls s)
             in s\<lparr>randomCalls := k,
                  voices := voices s @
                    [\<lparr> instrument = BombSfx,
                       source = BufferSource data,
                       biquad = Some (Lowpass,
                         [SetValueAtTime 1000 t, ExponentialRampToValueAtTime 50 (t + 4 / 10)]),
                       envelope = [SetValueAtTime (5 / 10) t,
                                   ExponentialRampToValueAtTime (1 / 100) (t + 4 / 10)],
                       outputs = [MasterBus],
                       startTime = t,
                       stopTime = None \<rparr>]\<rparr>))"

definition toggleMute :: "real \<Rightarrow> audio_service \<Rightarrow> audio_service" where
  "toggleMute now s =
     (let s1 = s\<lparr>isMuted := \<not> isMuted s\<rparr>
      in case masterGain s1 of
           None \<Rightarrow> s1
         | Some g \<Rightarrow>
             s1\<lparr>masterGain :=
                  Some (g @ [SetTargetAtTime (if isMuted s1 then 0 else 4 / 10) now (1 / 10)])\<rparr>)"

section \<open>The instruments\<close>

text \<open>
  The private \<^verbatim>\<open>play...\<close> methods are reached only from \<^verbatim>\<open>scheduleNote\<close>, which
  \<^verbatim>\<open>scheduler\<close> calls after it has found \<^verbatim>\<open>this.ctx\<close> non-null; the methods that
  read the sample rate from \<^verbatim>\<open>this.ctx!\<close> take that context as the argument \<open>c\<close>.
\<close>

definition playKick :: "real \<Rightarrow> audio_service \<Rightarrow> audio_service" where
  "playKick time s =
     s\<lparr>voices := voices s @
       [\<lparr> instrument = Kick,
          source = Oscillator Sine
            [SetValueAtTime 150 time, ExponentialRampToValueAtTime (1 / 100) (time + 1 / 2)],
          biquad = None,
          envelope = [SetValueAtTime (8 / 10) time,
                      ExponentialRampToValueAtTime (1 / 100) (time + 1 / 2)],
          outputs = [MasterBus],
          startTime = time,
          stopTime = Some (time + 1 / 2) \<rparr>]\<rparr>"

definition playSnare :: "(nat \<Rightarrow> real) \<Rightarrow> audio_context \<Rightarrow> real \<Rightarrow> audio_service \<Rightarrow> audio_service" where
  "playSnare rnd c time s =
     (let (data, k) = noise_buffer rnd c (2 / 10) (randomCalls s)
      in s\<lparr>randomCalls := k,
           voices := voices s @
             [\<lparr> instrument = Snare,
                source = BufferSource data,
                biquad = Some (Highpass, [SetValue 800]),
                envelope = [SetValueAtTime (3 / 10) time,
                            ExponentialRampToValueAtTime (1 / 100) (time + 2 / 10)],
                outputs = [ReverbBus, MasterBus],
                startTime = time,
                stopTime = Some (time + 2 / 10) \<rparr>]\<rparr>)"

definition playHiHat ::
  "(nat \<Rightarrow> real) \<Rightarrow> audio_context \<Rightarrow> real \<Rightarrow> real \<Rightarrow> audio_service \<Rightarrow> audio_service" where
  "playHiHat rnd c time duration s =
     (let (data, k) = noise_buffer rnd c duration (randomCalls s)
      in s\<lparr>randomCalls := k,
           voices := voices s @
             [\<lparr> instrument = HiHat,
                source = BufferSource data,
                biquad = Some (Highpass, [SetValue 5000]),
                envelope = [SetValueAtTime (1 / 10) time,
                            ExponentialRampToValueAtTime (1 / 100) (time + duration)],
                outputs = [MasterBus],
                startTime = time,
                stopTime = None \<rparr>]\<rparr>)"

definition playBass :: "real \<Rightarrow> real \<Rightarrow> real \<Rightarrow> audio_service \<Rightarrow> audio_service" where
  "playBass time freq duration s =
     s\<lparr>voices := voices s @
       [\<lparr> instrument = Bass,
          source = Oscillator Sawtooth [SetValue freq],
          biquad = Some (Lowpass,
            [SetValueAtTime 400 time, ExponentialRampToValueAtTime 100 (time + duration)]),
          envelope = [SetValueAtTime (3 / 10) time, LinearRampToValueAtTime 0 (time + duration)],
          outputs = [MasterBus],
          startTime = time,
          stopTime = Some (time + duration) \<rparr>]\<rparr>"

definition playSynth :: "real \<Rightarrow> real \<Rightarrow> real \<Rightarrow> audio_service \<Rightarrow> audio_service" where
  "playSynth time freq duration s =
     s\<lparr>voices := voices s @
       [\<lparr> instrument = Synth,
          source = Oscillator Square [SetValue freq],
          biquad = None,
          envelope = [SetValueAtTime (1 / 10) time, LinearRampToValueAtTime 0 (time + duration)],
          outputs = [ReverbBus, MasterBus],
          startTime = time,
          stopTime = Some (time + duration) \<rparr>]\<rparr>"

section \<open>The pattern and the scheduler\<close>

text \<open>
  \<^verbatim>\<open>scheduleNote\<close>. The two melody branches draw the note index with one
  \<^verbatim>\<open>Math.random\<close> call each; a draw is in [0, 1), so the index is inside the scale
  (outside that range \<open>scale ! noteIdx\<close> would be \<^verbatim>\<open>undefined\<close> in JavaScript).
\<close>

definition scheduleNote ::
  "(nat \<Rightarrow> real) \<Rightarrow> audio_context \<Rightarrow> nat \<Rightarrow> real \<Rightarrow> audio_service \<Rightarrow> audio_service" where
  "scheduleNote rnd c beatNumber time s =
     (if isMuted s then s
      else
        (let s1 = (if intensity s = High
                   then (if beatNumber mod 4 = 0 then playKick time s else s)
                   else (if beatNumber = 0 \<or> beatNumber = 10 then playKick time s else s));
             s2 = (if beatNumber mod 8 = 4 then playSnare rnd c time s1 else s1);
             s3 = (if beatNumber mod 2 = 0 then playHiHat rnd c time (5 / 100) s2
                   else (if intensity s2 = High then playHiHat rnd c time (3 / 100) s2 else s2));
             s4 = (if intensity s3 = High
                   then (if beatNumber mod 2 = 0
                         then (let note = (if beatNumber < 8 then scale ! 0 else scale ! 1)
                               in playBass time (note / 2) (2 / 10) s3)
                         else s3)
                   else (if beatNumber = 0 then playBass time (scale ! 0 / 2) 2 s3 else s3))
         in if intensity s4 = High
            then (if beatNumber \<in> set [0, 3, 6, 9, 12, 14]
                  then (let noteIdx = nat \<lfloor>rnd (randomCalls s4) * 4\<rfloor>
                        in playSynth time (scale ! noteIdx) (1 / 10)
                             (s4\<lparr>randomCalls := randomCalls s4 + 1\<rparr>))
                  else s4)
            else (if beatNumber = 0 \<or> beatNumber = 6 \<or> beatNumber = 12
                  then (let noteIdx = nat \<lfloor>rnd (randomCalls s4) * real (length scale)\<rfloor>
                        in playSynth time (scale ! noteIdx * 2) (5 / 10)
                             (s4\<lparr>randomCalls := randomCalls s4 + 1\<rparr>))
                  else s4)))"

text \<open>\<^verbatim>\<open>window.setTimeout\<close> and \<^verbatim>\<open>window.clearTimeout\<close> on the pending timeouts.\<close>

definition setTimeout :: "audio_service \<Rightarrow> nat \<times> audio_service" where
  "setTimeout s =
     (let i = timerCount s + 1
      in (i, s\<lparr>timerCount := i, pendingTimers := insert i (pendingTimers s)\<rparr>))"

definition clearTimeout :: "nat option \<Rightarrow> audio_service \<Rightarrow> audio_service" where
  "clearTimeout t s =
     (case t of None \<Rightarrow> s | Some i \<Rightarrow> s\<lparr>pendingTimers := pendingTimers s - {i}\<rparr>)"

definition stopBGM :: "audio_service \<Rightarrow> audio_service" where
  "stopBGM s = clearTimeout (timerID s) (s\<lparr>isPlaying := False\<rparr>)"

text \<open>
  The \<^verbatim>\<open>while\<close> loop of \<^verbatim>\<open>scheduler\<close>; \<open>None\<close> is a loop that never ends
  (a tempo that is not positive never reaches the window's end).
\<close>

partial_function (option) schedule_ahead ::
  "(nat \<Rightarrow> real) \<Rightarrow> audio_context \<Rightarrow> real \<Rightarrow> audio_service \<Rightarrow> audio_service option" where
  "schedule_ahead rnd c now s =
     (if nextNoteTime s < now + scheduleAheadTime
      then schedule_ahead rnd c now
             (nextNote (scheduleNote rnd c (current16thNote s) (nextNoteTime s) s))
      else Some s)"

definition scheduler :: "(nat \<Rightarrow> real) \<Rightarrow> real \<Rightarrow> audio_service \<Rightarrow> audio_service option" where
  "scheduler rnd now s =
     (if \<not> isPlaying s then Some s
      else case ctx s of
             None \<Rightarrow> Some s
           | Some c \<Rightarrow>
               (case schedule_ahead rnd c now s of
                  None \<Rightarrow> None
                | Some s1 \<Rightarrow> (let (i, s2) = setTimeout s1 in Some (s2\<lparr>timerID := Some i\<rparr>))))"

text \<open>The callback of a timeout runs once, if the timeout is still pending when it is due.\<close>

definition timeout_fires :: "(nat \<Rightarrow> real) \<Rightarrow> real \<Rightarrow> nat \<Rightarrow> audio_service \<Rightarrow> audio_service option" where
  "timeout_fires rnd now i s =
     (if i \<in> pendingTimers s
      then scheduler rnd now (s\<lparr>pendingTimers := pendingTimers s - {i}\<rparr>)
      else Some s)"

definition startBGM ::
  "(real \<Rightarrow> real \<Rightarrow> real) \<Rightarrow> (nat \<Rightarrow> real) \<Rightarrow> audio_context \<Rightarrow> real \<Rightarrow> intensity_level \<Rightarrow> audio_service \<Rightarrow> audio_service option" where
  "startBGM pow rnd device now level s =
     (let s1 = (if isPlaying s then stopBGM s else s);
          s2 = init pow rnd device s1
      in case ctx s2 of
           None \<Rightarrow> Some s2
         | Some c \<Rightarrow>
             scheduler rnd now
               (s2\<lparr>intensity := level, isPlaying := True, current16thNote := 0,
                   tempo := (if level = High then 135 else 100),
                   nextNoteTime := now + 1 / 10\<rparr>))"

text \<open>The voices that a run from \<open>s\<close> to \<open>s'\<close> handed to the audio engine.\<close>

definition triggered :: "audio_service \<Rightarrow> audio_service \<Rightarrow> voice list" where
  "triggered s s' = drop (length (voices s)) (voices s')"

section \<open>Notions used in the statements and proofs\<close>

text \<open>
  \<open>emits t ins s s'\<close>: the run from \<open>s\<close> to \<open>s'\<close> only appended voices, all starting at
  \<open>t\<close> and of the instruments \<open>ins\<close> in this order, and made \<^verbatim>\<open>Math.random\<close> calls.
\<close>

definition emits :: "real \<Rightarrow> instrument list \<Rightarrow> audio_service \<Rightarrow> audio_service \<Rightarrow> bool" where
  "emits t ins s s' \<longleftrightarrow>
     s'\<lparr>randomCalls := randomCalls s, voices := voices s\<rparr> = s \<and>
     take (length (voices s)) (voices s') = voices s \<and>
     map instrument (triggered s s') = ins \<and>
     (\<forall>v \<in> set (triggered s s'). startTime v = t)"

text \<open>
  At most one scheduling loop: the only timeout that may be pending is the one stored in
  \<^verbatim>\<open>timerID\<close>, and none is pending while the service is stopped.
\<close>

definition timers_ok :: "audio_service \<Rightarrow> bool" where
  "timers_ok s \<longleftrightarrow>
     (if isPlaying s then pendingTimers s \<subseteq> set_option (timerID s) else pendingTimers s = {})"

text \<open>
  The invariant of the class, and the states a run of the public methods and of the timer
  callback reaches from a new service.
\<close>

definition service_ok :: "audio_service \<Rightarrow> bool" where
  "service_ok s \<longleftrightarrow>
     timers_ok s \<and> tempo s \<in> {120, 100, 135} \<and> current16thNote s < 16 \<and>
     (isPlaying s \<longrightarrow> ctx s \<noteq> None) \<and>
     (masterGain s = None \<longleftrightarrow> ctx s = None) \<and> (reverbNode s = None \<longleftrightarrow> ctx s = None)"

inductive reachable ::
  "(real \<Rightarrow> real \<Rightarrow> real) \<Rightarrow> (nat \<Rightarrow> real) \<Rightarrow> audio_context \<Rightarrow> audio_service \<Rightarrow> bool"
  for pow :: "real \<Rightarrow> real \<Rightarrow> real" and rnd :: "nat \<Rightarrow> real" and device :: audio_context where
  constructed: "reachable pow rnd device new_AudioService"
| after_init: "reachable pow rnd device s \<Longrightarrow> reachable pow rnd device (init pow rnd device s)"
| after_playSliceSfx: "reachable pow rnd device s \<Longrightarrow> reachable pow rnd device (playSliceSfx now s)"
| after_playBombSfx: "reachable pow rnd device s \<Longrightarrow> reachable pow rnd device (playBombSfx rnd now s)"
| after_startBGM:
    "reachable pow rnd device s \<Longrightarrow> startBGM pow rnd device now level s = Some s' \<Longrightarrow>
     reachable pow rnd device s'"
| after_stopBGM: "reachable pow rnd device s \<Longrightarrow> reachable pow rnd device (stopBGM s)"
| after_toggleMute: "reachable pow rnd device s \<Longrightarrow> reachable pow rnd device (toggleMute now s)"
| after_timeout:
    "reachable pow rnd device s \<Longrightarrow> timeout_fires rnd now i s = Some s' \<Longrightarrow>
     reachable pow rnd device s'"

text \<open>The voices of one instrument among a list of voices.\<close>

definition of_instrument :: "instrument \<Rightarrow> voice list \<Rightarrow> voice list" where
  "of_instrument i vs = filter (\<lambda>v. instrument v = i) vs"

text \<open>A random source whose every draw is \<open>r\<close>, and a service after \<^verbatim>\<open>init\<close> at 44.1 kHz.\<close>

definition constant_draws :: "real \<Rightarrow> nat \<Rightarrow> real" where
  "constant_draws r k = r"

definition example_context :: audio_context where
  "example_context = \<lparr> sampleRate = 44100, ctx_state = Running \<rparr>"

definition example_ready :: audio_service where
  "example_ready = init Math_pow (constant_draws (1 / 2)) example_context new_AudioService"

section \<open>Step advance\<close>

lemma nextNote_time: "nextNoteTime (nextNote s) = nextNoteTime s + (60 / tempo s) * (1 / 4)"
  by (simp add: nextNote_def Let_def)

lemma nextNote_tempo: "tempo (nextNote s) = tempo s"
  by (simp add: nextNote_def Let_def)

lemma nextNote_step:
  "current16thNote (nextNote s) = (if current16thNote s = 15 then 0 else current16thNote s + 1)"
  by (simp add: nextNote_def Let_def)





section \<open>Step advance in double arithmetic\<close>

text \<open>
  Evaluating a rounding at a number: the exponent search takes as many steps as the
  exponent is away from 0.
\<close>

lemma binade_numeral:
  "binade (numeral k) x =
     (if 2 \<le> x then binade (pred_numeral k) (x / 2) + 1
      else if x < 1 then binade (pred_numeral k) (x * 2) - 1
      else 0)"
  by (simp add: numeral_eq_Suc)

lemmas rounding_eval =
  round_double_def Math_fround_def round_binary_def binade_numeral round_even_def Let_def

lemma nextNote_rounded_exact: "nextNote_rounded (\<lambda>x. x) s = nextNote s"
  by (simp add: nextNote_rounded_def nextNote_def)

lemma nextNote_rounded_time:
  "nextNoteTime (nextNote_rounded fl s) = fl (nextNoteTime s + fl ((1 / 4) * fl (60 / tempo s)))"
  by (simp add: nextNote_rounded_def Let_def)

lemma nextNote_rounded_tempo: "tempo (nextNote_rounded fl s) = tempo s"
  by (simp add: nextNote_rounded_def Let_def)

lemma nextNote_rounded_step:
  "current16thNote (nextNote_rounded fl s) =
     (if current16thNote s = 15 then 0 else current16thNote s + 1)"
  by (simp add: nextNote_rounded_def Let_def)

lemma nextNote_rounded_step_mod:
  "current16thNote s < 16 \<Longrightarrow>
   current16thNote (nextNote_rounded fl s) = (current16thNote s + 1) mod 16"
  by (simp add: nextNote_rounded_step)

lemma nextNote_rounded_funpow_tempo: "tempo ((nextNote_rounded fl ^^ n) s) = tempo s"
  by (induction n) (simp_all add: nextNote_rounded_tempo)

lemma nextNote_rounded_funpow_step:
  "current16thNote s < 16 \<Longrightarrow>
   current16thNote ((nextNote_rounded fl ^^ n) s) = (current16thNote s + n) mod 16"
proof (induction n)
  case 0
  then show ?case by simp
next
  case (Suc n)
  have lt: "current16thNote ((nextNote_rounded fl ^^ n) s) < 16"
    using Suc by simp
  have "current16thNote ((nextNote_rounded fl ^^ Suc n) s) =
          (current16thNote ((nextNote_rounded fl ^^ n) s) + 1) mod 16"
    using nextNote_rounded_step_mod [OF lt] by simp
  also have "\<dots> = ((current16thNote s + n) mod 16 + 1) mod 16"
    using Suc by simp
  also have "\<dots> = (current16thNote s + Suc n) mod 16"
    by (simp add: mod_Suc_eq)
  finally show ?case .
qed

lemma funpow_16: "(f ^^ 16) x = f (f (f (f (f (f (f (f (f (f (f (f (f (f (f (f x)))))))))))))))"
  by (simp add: numeral_eq_Suc)

lemma sixteenth_at_120: "round_double ((1 / 4) * round_double (60 / 120)) = 1 / 8"
  by (simp add: rounding_eval)

lemma nextNote_rounded_time_120:
  "tempo s = 120 \<Longrightarrow>
   nextNoteTime (nextNote_rounded round_double s) = round_double (nextNoteTime s + 1 / 8)"
proof -
  assume t: "tempo s = 120"
  have "nextNoteTime (nextNote_rounded round_double s) =
          round_double (nextNoteTime s + round_double ((1 / 4) * round_double (60 / 120)))"
    by (simp only: nextNote_rounded_time t)
  then show ?thesis
    by (simp only: sixteenth_at_120)
qed

lemma nextNote_rounded_funpow_time_120:
  "tempo s = 120 \<Longrightarrow>
   nextNoteTime ((nextNote_rounded round_double ^^ n) s) =
     ((\<lambda>t. round_double (t + 1 / 8)) ^^ n) (nextNoteTime s)"
  by (induction n) (simp_all add: nextNote_rounded_time_120 nextNote_rounded_funpow_tempo)

lemma nextNote_rounded_exact_sum:
  assumes "tempo s = 120"
    and "\<forall>i \<in> {1..n}. round_double (nextNoteTime s + real i / 8) = nextNoteTime s + real i / 8"
  shows "nextNoteTime ((nextNote_rounded round_double ^^ n) s) = nextNoteTime s + real n / 8"
  using assms(2)
proof (induction n)
  case 0
  then show ?case by simp
next
  case (Suc n)
  have "nextNoteTime ((nextNote_rounded round_double ^^ n) s) = nextNoteTime s + real n / 8"
    using Suc by simp
  moreover have "nextNoteTime ((nextNote_rounded round_double ^^ Suc n) s) =
      round_double (nextNoteTime ((nextNote_rounded round_double ^^ n) s) + 1 / 8)"
    using assms(1) by (simp add: nextNote_rounded_time_120 nextNote_rounded_funpow_tempo)
  moreover have "nextNoteTime s + real n / 8 + 1 / 8 = nextNoteTime s + real (Suc n) / 8"
    by (simp add: field_simps)
  moreover have "Suc n \<in> {1..Suc n}"
    by simp
  then have "round_double (nextNoteTime s + real (Suc n) / 8) = nextNoteTime s + real (Suc n) / 8"
    using Suc.prems by blast
  ultimately show ?case
    by (simp only:)
qed

text \<open>
  C2, as amended. In the double arithmetic of the code, at tempo 120 the increment of a
  step advance is exactly 1/8 s, and one advance sets the next event time to the double
  nearest to it plus 1/8. Every advance moves the step counter from a step in 0..15 to
  the next one modulo 16, so \<open>n\<close> advances add \<open>n\<close> modulo 16 and sixteen bring the counter
  back. Sixteen advances add exactly 2 s whenever the sixteen partial sums, the start plus
  i/8, are doubles. For every tempo the increment is the double \<open>0.25 * (60 / tempo)\<close>,
  each operation rounded, computed from the tempo alone (no clock reading enters).
  Without the rounding the advance is the \<open>nextNote\<close> of the scheduler's model.
\<close>

theorem nextNote_double_step:
  "(tempo s = 120 \<longrightarrow>
      nextNoteTime (nextNote_rounded round_double s) = round_double (nextNoteTime s + 1 / 8)) \<and>
   (current16thNote s < 16 \<longrightarrow>
      current16thNote (nextNote_rounded round_double s) = (current16thNote s + 1) mod 16 \<and>
      (\<forall>n. current16thNote ((nextNote_rounded round_double ^^ n) s) =
             (current16thNote s + n) mod 16) \<and>
      current16thNote ((nextNote_rounded round_double ^^ 16) s) = current16thNote s) \<and>
   (tempo s = 120 \<and>
    (\<forall>i \<in> {1..16}. round_double (nextNoteTime s + real i / 8) = nextNoteTime s + real i / 8) \<longrightarrow>
      nextNoteTime ((nextNote_rounded round_double ^^ 16) s) = nextNoteTime s + 2) \<and>
   (tempo s \<noteq> 0 \<longrightarrow>
      nextNoteTime (nextNote_rounded round_double s) =
        round_double (nextNoteTime s + round_double ((1 / 4) * round_double (60 / tempo s)))) \<and>
   nextNote_rounded (\<lambda>x. x) s = nextNote s"
proof (intro conjI impI)
  assume "tempo s = 120"
  then show "nextNoteTime (nextNote_rounded round_double s) = round_double (nextNoteTime s + 1 / 8)"
    by (rule nextNote_rounded_time_120)
next
  assume c: "current16thNote s < 16"
  then show "current16thNote (nextNote_rounded round_double s) = (current16thNote s + 1) mod 16"
    by (rule nextNote_rounded_step_mod)
  show "\<forall>n. current16thNote ((nextNote_rounded round_double ^^ n) s) =
             (current16thNote s + n) mod 16"
    using c by (simp add: nextNote_rounded_funpow_step)
  have "current16thNote ((nextNote_rounded round_double ^^ 16) s) = (current16thNote s + 16) mod 16"
    using c by (rule nextNote_rounded_funpow_step)
  then show "current16thNote ((nextNote_rounded round_double ^^ 16) s) = current16thNote s"
    using c by simp
next
  assume a: "tempo s = 120 \<and>
    (\<forall>i \<in> {1..16}. round_double (nextNoteTime s + real i / 8) = nextNoteTime s + real i / 8)"
  have "nextNoteTime ((nextNote_rounded round_double ^^ 16) s) = nextNoteTime s + real 16 / 8"
    using a by (intro nextNote_rounded_exact_sum) simp_all
  then show "nextNoteTime ((nextNote_rounded round_double ^^ 16) s) = nextNoteTime s + 2"
    by simp
next
  show "nextNoteTime (nextNote_rounded round_double s) =
        round_double (nextNoteTime s + round_double ((1 / 4) * round_double (60 / tempo s)))"
    by (rule nextNote_rounded_time)
next
  show "nextNote_rounded (\<lambda>x. x) s = nextNote s"
    by (rule nextNote_rounded_exact)
qed

lemma eighths_from_half:
  "\<forall>i \<in> {1..16 :: nat}. round_double (1 / 2 + real i / 8) = 1 / 2 + real i / 8"
  by (simp add: rounding_eval)

theorem nextNote_double_step_witness:
  "nextNoteTime (nextNote_rounded round_double
      (new_AudioService\<lparr>nextNoteTime := 1 / 2, current16thNote := 7\<rparr>)) = 5 / 8 \<and>
   current16thNote (nextNote_rounded round_double
      (new_AudioService\<lparr>nextNoteTime := 1 / 2, current16thNote := 7\<rparr>)) = 8 \<and>
   nextNoteTime ((nextNote_rounded round_double ^^ 16)
      (new_AudioService\<lparr>nextNoteTime := 1 / 2, current16thNote := 7\<rparr>)) = 5 / 2 \<and>
   current16thNote ((nextNote_rounded round_double ^^ 16)
      (new_AudioService\<lparr>nextNoteTime := 1 / 2, current16thNote := 7\<rparr>)) = 7 \<and>
   current16thNote ((nextNote_rounded round_double ^^ 10)
      (new_AudioService\<lparr>nextNoteTime := 1 / 2, current16thNote := 7\<rparr>)) = 1"
proof -
  let ?s = "new_AudioService\<lparr>nextNoteTime := 1 / 2, current16thNote := 7\<rparr>"
  note th = nextNote_double_step [of ?s]
  have r: "round_double (5 / 8) = 5 / 8"
    by (simp add: rounding_eval)
  have e: "\<forall>i \<in> {1..16}. round_double (nextNoteTime ?s + real i / 8) = nextNoteTime ?s + real i / 8"
    using eighths_from_half by (simp add: new_AudioService_def)
  have t: "tempo ?s = 120" and c: "current16thNote ?s < 16" and c7: "current16thNote ?s = 7"
    and h: "nextNoteTime ?s = 1 / 2"
    by (simp_all add: new_AudioService_def)
  have "nextNoteTime (nextNote_rounded round_double ?s) = round_double (nextNoteTime ?s + 1 / 8)"
    by (rule mp [OF th [THEN conjunct1] t])
  then have one: "nextNoteTime (nextNote_rounded round_double ?s) = 5 / 8"
    by (simp add: h r)
  note steps = mp [OF th [THEN conjunct2, THEN conjunct1] c]
  have "current16thNote (nextNote_rounded round_double ?s) = (current16thNote ?s + 1) mod 16"
    by (rule steps [THEN conjunct1])
  then have next_step: "current16thNote (nextNote_rounded round_double ?s) = 8"
    by (simp add: c7)
  have "current16thNote ((nextNote_rounded round_double ^^ 10) ?s) = (current16thNote ?s + 10) mod 16"
    by (rule spec [OF steps [THEN conjunct2, THEN conjunct1]])
  then have ten: "current16thNote ((nextNote_rounded round_double ^^ 10) ?s) = 1"
    by (simp add: c7)
  have "current16thNote ((nextNote_rounded round_double ^^ 16) ?s) = current16thNote ?s"
    by (rule steps [THEN conjunct2, THEN conjunct2])
  then have cyc: "current16thNote ((nextNote_rounded round_double ^^ 16) ?s) = 7"
    by (simp add: c7)
  have "nextNoteTime ((nextNote_rounded round_double ^^ 16) ?s) = nextNoteTime ?s + 2"
    by (rule mp [OF th [THEN conjunct2, THEN conjunct2, THEN conjunct1] conjI [OF t e]])
  then have two: "nextNoteTime ((nextNote_rounded round_double ^^ 16) ?s) = 5 / 2"
    by (simp add: h)
  show ?thesis
    using one next_step two cyc ten by (intro conjI)
qed

text \<open>
  C2 as stated fails in double arithmetic. From the event time 0.1203 (as a double) at
  tempo 120, one advance adds more than 1/8 (the sum is rounded up) and sixteen advances
  end on 2.1203000000000003, which is not the start plus 2; and at tempo 100 the
  increment is not the rational 60/100 * 1/4, because 0.6 is not a double.
\<close>

theorem nextNote_double_counterexample:
  "nextNoteTime (nextNote_rounded round_double
      (new_AudioService\<lparr>nextNoteTime := 8668528562762731 / 72057594037927936\<rparr>)) =
     4418931954375931 / 18014398509481984 \<and>
   4418931954375931 / 18014398509481984 - 8668528562762731 / 72057594037927936 \<noteq> (1 / 8 :: real) \<and>
   nextNoteTime ((nextNote_rounded round_double ^^ 16)
      (new_AudioService\<lparr>nextNoteTime := 8668528562762731 / 72057594037927936\<rparr>)) =
     149202848279901 / 70368744177664 \<and>
   149202848279901 / 70368744177664 - 8668528562762731 / 72057594037927936 \<noteq> (2 :: real) \<and>
   round_double ((1 / 4) * round_double (60 / 100)) \<noteq> (60 / 100) * (1 / 4)"
proof -
  have t: "tempo (new_AudioService\<lparr>nextNoteTime := 8668528562762731 / 72057594037927936\<rparr>) = 120"
    by (simp add: new_AudioService_def)
  have one: "nextNoteTime (nextNote_rounded round_double
      (new_AudioService\<lparr>nextNoteTime := 8668528562762731 / 72057594037927936\<rparr>)) =
     4418931954375931 / 18014398509481984"
    by (simp only: nextNote_rounded_time_120 [OF t]) (simp add: new_AudioService_def rounding_eval)
  have sixteen: "nextNoteTime ((nextNote_rounded round_double ^^ 16)
      (new_AudioService\<lparr>nextNoteTime := 8668528562762731 / 72057594037927936\<rparr>)) =
     149202848279901 / 70368744177664"
  proof -
    have "nextNoteTime ((nextNote_rounded round_double ^^ 16)
            (new_AudioService\<lparr>nextNoteTime := 8668528562762731 / 72057594037927936\<rparr>)) =
          ((\<lambda>t. round_double (t + 1 / 8)) ^^ 16)
            (nextNoteTime (new_AudioService\<lparr>nextNoteTime := 8668528562762731 / 72057594037927936\<rparr>))"
      by (rule nextNote_rounded_funpow_time_120 [OF t])
    also have "\<dots> = 149202848279901 / 70368744177664"
      by (simp only: funpow_16) (simp add: new_AudioService_def rounding_eval)
    finally show ?thesis .
  qed
  have inc: "round_double ((1 / 4) * round_double (60 / 100)) \<noteq> (60 / 100) * (1 / 4)"
    by (simp add: rounding_eval)
  show ?thesis
    using one sixteen inc by simp
qed

section \<open>The pattern of one step\<close>

lemma emits_refl: "emits t [] s s"
  by (simp add: emits_def triggered_def)

lemma emits_voices: "emits t ins s s' \<Longrightarrow> voices s' = voices s @ triggered s s'"
  unfolding emits_def triggered_def
  by (metis append_take_drop_id)

lemma emits_trans:
  assumes "emits t a s s1" and "emits t b s1 s2"
  shows "emits t (a @ b) s s2"
proof -
  define n1 where "n1 = triggered s s1"
  define n2 where "n2 = triggered s1 s2"
  have v1: "voices s1 = voices s @ n1"
    unfolding n1_def using assms(1) by (rule emits_voices)
  have "voices s2 = voices s1 @ n2"
    unfolding n2_def using assms(2) by (rule emits_voices)
  then have v2: "voices s2 = voices s @ n1 @ n2"
    by (simp add: v1)
  have tr: "triggered s s2 = n1 @ n2"
    by (simp add: triggered_def v2)
  have f1: "s1\<lparr>randomCalls := randomCalls s, voices := voices s\<rparr> = s"
    using assms(1) by (simp add: emits_def)
  have f2: "s2\<lparr>randomCalls := randomCalls s1, voices := voices s1\<rparr> = s1"
    using assms(2) by (simp add: emits_def)
  have "s2\<lparr>randomCalls := randomCalls s, voices := voices s\<rparr> =
        (s2\<lparr>randomCalls := randomCalls s1, voices := voices s1\<rparr>)\<lparr>randomCalls := randomCalls s, voices := voices s\<rparr>"
    by simp
  also have "\<dots> = s" by (simp only: f2 f1)
  finally have f: "s2\<lparr>randomCalls := randomCalls s, voices := voices s\<rparr> = s" .
  have "take (length (voices s)) (voices s2) = voices s"
    by (simp add: v2)
  moreover have "map instrument (n1 @ n2) = a @ b"
    using assms by (simp add: n1_def n2_def emits_def)
  moreover have "\<forall>v \<in> set (n1 @ n2). startTime v = t"
    using assms by (auto simp add: n1_def n2_def emits_def)
  ultimately show ?thesis using f by (simp add: emits_def tr)
qed

lemma emits_fields:
  assumes "emits t a s s'"
  shows "ctx s' = ctx s" "isMuted s' = isMuted s" "isPlaying s' = isPlaying s"
    "tempo s' = tempo s" "nextNoteTime s' = nextNoteTime s"
    "current16thNote s' = current16thNote s" "timerID s' = timerID s"
    "intensity s' = intensity s" "masterGain s' = masterGain s" "reverbNode s' = reverbNode s"
    "pendingTimers s' = pendingTimers s" "timerCount s' = timerCount s"
proof -
  define u where "u = s'\<lparr>randomCalls := randomCalls s, voices := voices s\<rparr>"
  have e: "u = s"
    using assms by (simp add: emits_def u_def)
  have "ctx u = ctx s'" "isMuted u = isMuted s'" "isPlaying u = isPlaying s'"
    "tempo u = tempo s'" "nextNoteTime u = nextNoteTime s'"
    "current16thNote u = current16thNote s'" "timerID u = timerID s'"
    "intensity u = intensity s'" "masterGain u = masterGain s'" "reverbNode u = reverbNode s'"
    "pendingTimers u = pendingTimers s'" "timerCount u = timerCount s'"
    by (simp_all add: u_def)
  then show "ctx s' = ctx s" "isMuted s' = isMuted s" "isPlaying s' = isPlaying s"
    "tempo s' = tempo s" "nextNoteTime s' = nextNoteTime s"
    "current16thNote s' = current16thNote s" "timerID s' = timerID s"
    "intensity s' = intensity s" "masterGain s' = masterGain s" "reverbNode s' = reverbNode s"
    "pendingTimers s' = pendingTimers s" "timerCount s' = timerCount s"
    by (simp_all add: e)
qed

lemma emits_playKick: "emits t [Kick] s (playKick t s)"
  by (simp add: emits_def playKick_def triggered_def)

lemma emits_playSnare: "emits t [Snare] s (playSnare rnd c t s)"
  by (simp add: emits_def playSnare_def triggered_def split: prod.splits)

lemma emits_playHiHat: "emits t [HiHat] s (playHiHat rnd c t d s)"
  by (simp add: emits_def playHiHat_def triggered_def split: prod.splits)

lemma emits_playBass: "emits t [Bass] s (playBass t f d s)"
  by (simp add: emits_def playBass_def triggered_def)

lemma emits_playSynth: "emits t [Synth] s (playSynth t f d s)"
  by (simp add: emits_def playSynth_def triggered_def)

lemma emits_draw: "emits t [] s (s\<lparr>randomCalls := k\<rparr>)"
  by (simp add: emits_def triggered_def)

lemma scheduleNote_stages:
  assumes "\<not> isMuted s"
  shows "\<exists>s4. emits t
            ((if (if intensity s = High then b mod 4 = 0 else b = 0 \<or> b = 10) then [Kick] else []) @
             (if b mod 8 = 4 then [Snare] else []) @
             (if b mod 2 = 0 \<or> intensity s = High then [HiHat] else []) @
             (if (if intensity s = High then b mod 2 = 0 else b = 0) then [Bass] else [])) s s4 \<and>
          scheduleNote rnd c b t s =
            (if intensity s = High
             then (if b \<in> set [0, 3, 6, 9, 12, 14]
                   then playSynth t (scale ! nat \<lfloor>rnd (randomCalls s4) * 4\<rfloor>) (1 / 10)
                          (s4\<lparr>randomCalls := randomCalls s4 + 1\<rparr>)
                   else s4)
             else (if b = 0 \<or> b = 6 \<or> b = 12
                   then playSynth t (scale ! nat \<lfloor>rnd (randomCalls s4) * real (length scale)\<rfloor> * 2) (5 / 10)
                          (s4\<lparr>randomCalls := randomCalls s4 + 1\<rparr>)
                   else s4))"
proof -
  define s1 where "s1 = (if intensity s = High
                   then (if b mod 4 = 0 then playKick t s else s)
                   else (if b = 0 \<or> b = 10 then playKick t s else s))"
  define s2 where "s2 = (if b mod 8 = 4 then playSnare rnd c t s1 else s1)"
  define s3 where "s3 = (if b mod 2 = 0 then playHiHat rnd c t (5 / 100) s2
                   else (if intensity s2 = High then playHiHat rnd c t (3 / 100) s2 else s2))"
  define s4 where "s4 = (if intensity s3 = High
                   then (if b mod 2 = 0
                         then (let note = (if b < 8 then scale ! 0 else scale ! 1)
                               in playBass t (note / 2) (2 / 10) s3)
                         else s3)
                   else (if b = 0 then playBass t (scale ! 0 / 2) 2 s3 else s3))"
  have e1: "emits t (if (if intensity s = High then b mod 4 = 0 else b = 0 \<or> b = 10) then [Kick] else []) s s1"
    by (simp add: s1_def emits_playKick emits_refl)
  have i1: "intensity s1 = intensity s"
    using e1 by (rule emits_fields)
  have e2: "emits t (if b mod 8 = 4 then [Snare] else []) s1 s2"
    by (simp add: s2_def emits_playSnare emits_refl)
  have i2: "intensity s2 = intensity s"
    using emits_fields(8) [OF e2] i1 by simp
  have e3: "emits t (if b mod 2 = 0 \<or> intensity s = High then [HiHat] else []) s2 s3"
    by (simp add: s3_def i2 emits_playHiHat emits_refl)
  have i3: "intensity s3 = intensity s"
    using emits_fields(8) [OF e3] i2 by simp
  have e4: "emits t (if (if intensity s = High then b mod 2 = 0 else b = 0) then [Bass] else []) s3 s4"
    by (simp add: s4_def i3 Let_def emits_playBass emits_refl)
  have i4: "intensity s4 = intensity s"
    using emits_fields(8) [OF e4] i3 by simp
  have e: "emits t
            ((if (if intensity s = High then b mod 4 = 0 else b = 0 \<or> b = 10) then [Kick] else []) @
             (if b mod 8 = 4 then [Snare] else []) @
             (if b mod 2 = 0 \<or> intensity s = High then [HiHat] else []) @
             (if (if intensity s = High then b mod 2 = 0 else b = 0) then [Bass] else [])) s s4"
    by (rule emits_trans [OF e1 emits_trans [OF e2 emits_trans [OF e3 e4]]])
  have "scheduleNote rnd c b t s =
          (if intensity s4 = High
            then (if b \<in> set [0, 3, 6, 9, 12, 14]
                  then (let noteIdx = nat \<lfloor>rnd (randomCalls s4) * 4\<rfloor>
                        in playSynth t (scale ! noteIdx) (1 / 10)
                             (s4\<lparr>randomCalls := randomCalls s4 + 1\<rparr>))
                  else s4)
            else (if b = 0 \<or> b = 6 \<or> b = 12
                  then (let noteIdx = nat \<lfloor>rnd (randomCalls s4) * real (length scale)\<rfloor>
                        in playSynth t (scale ! noteIdx * 2) (5 / 10)
                             (s4\<lparr>randomCalls := randomCalls s4 + 1\<rparr>))
                  else s4))"
    unfolding scheduleNote_def s4_def s3_def s2_def s1_def
    by (simp only: assms if_False Let_def)
  then have "scheduleNote rnd c b t s =
            (if intensity s = High
             then (if b \<in> set [0, 3, 6, 9, 12, 14]
                   then playSynth t (scale ! nat \<lfloor>rnd (randomCalls s4) * 4\<rfloor>) (1 / 10)
                          (s4\<lparr>randomCalls := randomCalls s4 + 1\<rparr>)
                   else s4)
             else (if b = 0 \<or> b = 6 \<or> b = 12
                   then playSynth t (scale ! nat \<lfloor>rnd (randomCalls s4) * real (length scale)\<rfloor> * 2) (5 / 10)
                          (s4\<lparr>randomCalls := randomCalls s4 + 1\<rparr>)
                   else s4))"
    by (simp only: i4 Let_def)
  with e show ?thesis by blast
qed

lemma init_fields:
  "isMuted (init pow rnd d s) = isMuted s" "isPlaying (init pow rnd d s) = isPlaying s"
  "tempo (init pow rnd d s) = tempo s" "nextNoteTime (init pow rnd d s) = nextNoteTime s"
  "current16thNote (init pow rnd d s) = current16thNote s" "timerID (init pow rnd d s) = timerID s"
  "intensity (init pow rnd d s) = intensity s" "voices (init pow rnd d s) = voices s"
  "pendingTimers (init pow rnd d s) = pendingTimers s" "timerCount (init pow rnd d s) = timerCount s"
  by (simp_all add: init_def Let_def split: option.splits prod.splits)

lemma init_ctx: "ctx (init pow rnd d s) \<noteq> None"
  by (simp add: init_def Let_def split: option.splits prod.splits)

lemma init_masterGain:
  "masterGain (init pow rnd d s) = (case ctx s of None \<Rightarrow> Some [SetValue (4 / 10)] | Some c \<Rightarrow> masterGain s)"
  by (simp add: init_def Let_def split: option.splits prod.splits)

lemma init_ctx_new:
  "ctx s = None \<Longrightarrow> ctx (init pow rnd d s) = Some (d\<lparr>ctx_state := Running\<rparr>)"
  by (cases "ctx_state d") (simp_all add: init_def Let_def split: option.splits prod.splits)

lemma scheduleNote_muted: "isMuted s \<Longrightarrow> scheduleNote rnd c b t s = s"
  by (simp add: scheduleNote_def)

lemma scheduleNote_instruments:
  assumes "\<not> isMuted s"
  shows "emits t
            ((if (if intensity s = High then b mod 4 = 0 else b = 0 \<or> b = 10) then [Kick] else []) @
             (if b mod 8 = 4 then [Snare] else []) @
             (if b mod 2 = 0 \<or> intensity s = High then [HiHat] else []) @
             (if (if intensity s = High then b mod 2 = 0 else b = 0) then [Bass] else []) @
             (if (if intensity s = High then b \<in> set [0, 3, 6, 9, 12, 14]
                  else b = 0 \<or> b = 6 \<or> b = 12) then [Synth] else []))
            s (scheduleNote rnd c b t s)"
proof -
  obtain s4 where e: "emits t
            ((if (if intensity s = High then b mod 4 = 0 else b = 0 \<or> b = 10) then [Kick] else []) @
             (if b mod 8 = 4 then [Snare] else []) @
             (if b mod 2 = 0 \<or> intensity s = High then [HiHat] else []) @
             (if (if intensity s = High then b mod 2 = 0 else b = 0) then [Bass] else [])) s s4"
    and eq: "scheduleNote rnd c b t s =
            (if intensity s = High
             then (if b \<in> set [0, 3, 6, 9, 12, 14]
                   then playSynth t (scale ! nat \<lfloor>rnd (randomCalls s4) * 4\<rfloor>) (1 / 10)
                          (s4\<lparr>randomCalls := randomCalls s4 + 1\<rparr>)
                   else s4)
             else (if b = 0 \<or> b = 6 \<or> b = 12
                   then playSynth t (scale ! nat \<lfloor>rnd (randomCalls s4) * real (length scale)\<rfloor> * 2) (5 / 10)
                          (s4\<lparr>randomCalls := randomCalls s4 + 1\<rparr>)
                   else s4))"
    using scheduleNote_stages [OF assms, of t b rnd c] by blast
  have syn: "emits t [Synth] s4 (playSynth t f d (s4\<lparr>randomCalls := k\<rparr>))" for f d k
    using emits_trans [OF emits_draw [of t s4 k] emits_playSynth [of t "s4\<lparr>randomCalls := k\<rparr>" f d]] by simp
  have "emits t (if (if intensity s = High then b \<in> set [0, 3, 6, 9, 12, 14]
                  else b = 0 \<or> b = 6 \<or> b = 12) then [Synth] else []) s4 (scheduleNote rnd c b t s)"
    unfolding eq by (simp add: syn emits_refl)
  from emits_trans [OF e this] show ?thesis by simp
qed

lemma scheduleNote_emits: "\<exists>ins. emits t ins s (scheduleNote rnd c b t s)"
proof (cases "isMuted s")
  case True
  then show ?thesis using emits_refl by (auto simp add: scheduleNote_muted)
next
  case False
  then show ?thesis using scheduleNote_instruments by blast
qed

lemma of_instrument_count:
  "length (of_instrument i vs) = length (filter (\<lambda>j. j = i) (map instrument vs))"
  by (induction vs) (simp_all add: of_instrument_def)

lemma step_mod_4: "b < 16 \<Longrightarrow> (b mod 4 = 0) = (b \<in> {0, 4, 8, 12 :: nat})"
  by simp presburger

text \<open>
  C4. With mute off and a step in 0..15, one step of the pattern triggers exactly one Kick
  under high intensity when the step is a multiple of 4 (that is at steps 0, 4, 8 and 12)
  and none at any other step; under low intensity exactly one at steps 0 and 10 and none
  elsewhere.
\<close>

theorem kick_pattern:
  assumes "b < 16" and "\<not> isMuted s"
  shows "(intensity s = High \<longrightarrow>
            length (of_instrument Kick (triggered s (scheduleNote rnd c b t s))) =
              (if b mod 4 = 0 then 1 else 0) \<and>
            (b mod 4 = 0) = (b \<in> {0, 4, 8, 12})) \<and>
         (intensity s = Low \<longrightarrow>
            length (of_instrument Kick (triggered s (scheduleNote rnd c b t s))) =
              (if b \<in> {0, 10} then 1 else 0))"
proof -
  have m: "map instrument (triggered s (scheduleNote rnd c b t s)) =
            ((if (if intensity s = High then b mod 4 = 0 else b = 0 \<or> b = 10) then [Kick] else []) @
             (if b mod 8 = 4 then [Snare] else []) @
             (if b mod 2 = 0 \<or> intensity s = High then [HiHat] else []) @
             (if (if intensity s = High then b mod 2 = 0 else b = 0) then [Bass] else []) @
             (if (if intensity s = High then b \<in> set [0, 3, 6, 9, 12, 14]
                  else b = 0 \<or> b = 6 \<or> b = 12) then [Synth] else []))"
    using scheduleNote_instruments [OF assms(2), of t b rnd c] by (simp add: emits_def)
  show ?thesis
    using step_mod_4 [OF assms(1)] by (simp add: of_instrument_count m)
qed

theorem kick_pattern_witness:
  "length (of_instrument Kick (triggered (example_ready\<lparr>intensity := High\<rparr>)
      (scheduleNote (constant_draws (1 / 2)) example_context 8 1
         (example_ready\<lparr>intensity := High\<rparr>)))) = 1 \<and>
   length (of_instrument Kick (triggered (example_ready\<lparr>intensity := High\<rparr>)
      (scheduleNote (constant_draws (1 / 2)) example_context 10 1
         (example_ready\<lparr>intensity := High\<rparr>)))) = 0 \<and>
   length (of_instrument Kick (triggered example_ready
      (scheduleNote (constant_draws (1 / 2)) example_context 10 1 example_ready))) = 1"
  using kick_pattern [of 8 "example_ready\<lparr>intensity := High\<rparr>" "constant_draws (1 / 2)"
          example_context 1]
        kick_pattern [of 10 "example_ready\<lparr>intensity := High\<rparr>" "constant_draws (1 / 2)"
          example_context 1]
        kick_pattern [of 10 example_ready "constant_draws (1 / 2)" example_context 1]
  by (simp add: example_ready_def init_fields new_AudioService_def)

section \<open>Silence and mute\<close>

text \<open>
  C6. When the service is muted or has no audio context yet, \<^verbatim>\<open>playSliceSfx\<close> and
  \<^verbatim>\<open>playBombSfx\<close> return the state they were given: no voice is scheduled, no
  random number is drawn and no field changes.
\<close>

theorem sfx_silent_noop:
  assumes "isMuted s \<or> ctx s = None"
  shows "playSliceSfx now s = s \<and> playBombSfx rnd now s = s \<and>
         triggered s (playSliceSfx now s) = [] \<and> triggered s (playBombSfx rnd now s) = []"
  using assms by (auto simp add: playSliceSfx_def playBombSfx_def triggered_def split: option.splits)

theorem sfx_silent_noop_witness:
  "playSliceSfx 3 (example_ready\<lparr>isMuted := True\<rparr>) = example_ready\<lparr>isMuted := True\<rparr> \<and>
   playBombSfx (constant_draws (1 / 2)) 3 (example_ready\<lparr>isMuted := True\<rparr>) =
     example_ready\<lparr>isMuted := True\<rparr> \<and>
   playSliceSfx 3 new_AudioService = new_AudioService \<and>
   playBombSfx (constant_draws (1 / 2)) 3 new_AudioService = new_AudioService"
  using sfx_silent_noop [of "example_ready\<lparr>isMuted := True\<rparr>" 3 "constant_draws (1 / 2)"]
        sfx_silent_noop [of new_AudioService 3 "constant_draws (1 / 2)"]
  by (simp add: new_AudioService_def)

text \<open>
  C10. \<^verbatim>\<open>toggleMute\<close> writes the mute flag and appends to the master gain's
  automation, and nothing else: the transport fields, the reverb impulse, the context, the
  voices and the timers are those of the state before.
\<close>

theorem toggleMute_frame:
  "toggleMute now s =
     s\<lparr>isMuted := \<not> isMuted s,
       masterGain := map_option
         (\<lambda>g. g @ [SetTargetAtTime (if isMuted s then 4 / 10 else 0) now (1 / 10)]) (masterGain s)\<rparr> \<and>
   isPlaying (toggleMute now s) = isPlaying s \<and>
   tempo (toggleMute now s) = tempo s \<and>
   current16thNote (toggleMute now s) = current16thNote s \<and>
   nextNoteTime (toggleMute now s) = nextNoteTime s \<and>
   intensity (toggleMute now s) = intensity s \<and>
   reverbNode (toggleMute now s) = reverbNode s \<and>
   ctx (toggleMute now s) = ctx s \<and>
   voices (toggleMute now s) = voices s \<and>
   timerID (toggleMute now s) = timerID s \<and>
   pendingTimers (toggleMute now s) = pendingTimers s"
  by (cases "masterGain s") (simp_all add: toggleMute_def Let_def)

text \<open>
  C7, as amended. With an initialised master gain, two calls of \<^verbatim>\<open>toggleMute\<close> restore
  the mute flag and every other field; each call appends one \<^verbatim>\<open>setTargetAtTime\<close>
  with time constant 0.1 to the gain's automation and sets no value directly; and from a
  state that is not muted the target of the last one is the configured level 0.4 (from a
  muted state it is 0).
\<close>

theorem toggleMute_twice:
  assumes "masterGain s = Some g"
  shows "isMuted (toggleMute t2 (toggleMute t1 s)) = isMuted s \<and>
         masterGain (toggleMute t1 s) =
           Some (g @ [SetTargetAtTime (if isMuted s then 4 / 10 else 0) t1 (1 / 10)]) \<and>
         masterGain (toggleMute t2 (toggleMute t1 s)) =
           Some (g @ [SetTargetAtTime (if isMuted s then 4 / 10 else 0) t1 (1 / 10),
                      SetTargetAtTime (if isMuted s then 0 else 4 / 10) t2 (1 / 10)]) \<and>
         toggleMute t2 (toggleMute t1 s) =
           s\<lparr>masterGain := masterGain (toggleMute t2 (toggleMute t1 s))\<rparr> \<and>
         (\<not> isMuted s \<longrightarrow>
            last (the (masterGain (toggleMute t2 (toggleMute t1 s)))) =
              SetTargetAtTime (4 / 10) t2 (1 / 10))"
  using assms by (simp add: toggleMute_def Let_def)

lemma example_ready_masterGain: "masterGain example_ready = Some [SetValue (4 / 10)]"
  by (simp add: example_ready_def init_masterGain new_AudioService_def)

lemma example_ready_isMuted: "\<not> isMuted example_ready"
  by (simp add: example_ready_def init_fields new_AudioService_def)

theorem toggleMute_twice_witness:
  "isMuted (toggleMute 2 (toggleMute 1 example_ready)) = isMuted example_ready \<and>
   masterGain (toggleMute 2 (toggleMute 1 example_ready)) =
     Some [SetValue (4 / 10), SetTargetAtTime 0 1 (1 / 10), SetTargetAtTime (4 / 10) 2 (1 / 10)]"
  using toggleMute_twice [OF example_ready_masterGain, of 2 1]
  by (simp add: example_ready_isMuted)

text \<open>
  C7 as stated fails from a muted state. Muting before \<^verbatim>\<open>init\<close> gives a muted
  service whose master gain sits at the configured 0.4; two calls of \<^verbatim>\<open>toggleMute\<close>
  later the gain's last target is 0.
\<close>

theorem toggleMute_twice_counterexample:
  "masterGain (init Math_pow (constant_draws (1 / 2)) example_context (toggleMute 0 new_AudioService)) =
     Some [SetValue (4 / 10)] \<and>
   isMuted (init Math_pow (constant_draws (1 / 2)) example_context (toggleMute 0 new_AudioService)) \<and>
   masterGain (toggleMute 2 (toggleMute 1
      (init Math_pow (constant_draws (1 / 2)) example_context (toggleMute 0 new_AudioService)))) =
     Some [SetValue (4 / 10), SetTargetAtTime (4 / 10) 1 (1 / 10), SetTargetAtTime 0 2 (1 / 10)] \<and>
   last (the (masterGain (toggleMute 2 (toggleMute 1
      (init Math_pow (constant_draws (1 / 2)) example_context (toggleMute 0 new_AudioService)))))) \<noteq>
     SetTargetAtTime (4 / 10) 2 (1 / 10)"
  by (simp add: toggleMute_def Let_def init_masterGain init_fields new_AudioService_def)

section \<open>The melody\<close>















section \<open>The look-ahead loop\<close>

lemma nextNote_frame:
  "nextNote s = s\<lparr>nextNoteTime := nextNoteTime (nextNote s),
                   current16thNote := current16thNote (nextNote s)\<rparr>"
  by (simp add: nextNote_def Let_def)

lemma nextNote_fields:
  "ctx (nextNote s) = ctx s" "isMuted (nextNote s) = isMuted s"
  "isPlaying (nextNote s) = isPlaying s" "timerID (nextNote s) = timerID s"
  "intensity (nextNote s) = intensity s" "masterGain (nextNote s) = masterGain s"
  "reverbNode (nextNote s) = reverbNode s" "voices (nextNote s) = voices s"
  "randomCalls (nextNote s) = randomCalls s" "pendingTimers (nextNote s) = pendingTimers s"
  "timerCount (nextNote s) = timerCount s"
  by (simp_all add: nextNote_def Let_def)

lemma step_tempo: "tempo (nextNote (scheduleNote rnd c b t s)) = tempo s"
proof -
  obtain ins where "emits t ins s (scheduleNote rnd c b t s)"
    using scheduleNote_emits by blast
  then show ?thesis
    by (simp add: nextNote_tempo emits_fields)
qed

lemma step_time:
  "nextNoteTime (nextNote (scheduleNote rnd c b t s)) = nextNoteTime s + (60 / tempo s) * (1 / 4)"
proof -
  obtain ins where "emits t ins s (scheduleNote rnd c b t s)"
    using scheduleNote_emits by blast
  then show ?thesis
    by (simp add: nextNote_time emits_fields)
qed

lemma step_current16thNote:
  "current16thNote (nextNote (scheduleNote rnd c b t s)) =
     (if current16thNote s = 15 then 0 else current16thNote s + 1)"
proof -
  obtain ins where "emits t ins s (scheduleNote rnd c b t s)"
    using scheduleNote_emits by blast
  then show ?thesis
    by (simp add: nextNote_step emits_fields)
qed

lemma step_fields:
  "ctx (nextNote (scheduleNote rnd c b t s)) = ctx s"
  "isMuted (nextNote (scheduleNote rnd c b t s)) = isMuted s"
  "isPlaying (nextNote (scheduleNote rnd c b t s)) = isPlaying s"
  "timerID (nextNote (scheduleNote rnd c b t s)) = timerID s"
  "intensity (nextNote (scheduleNote rnd c b t s)) = intensity s"
  "masterGain (nextNote (scheduleNote rnd c b t s)) = masterGain s"
  "reverbNode (nextNote (scheduleNote rnd c b t s)) = reverbNode s"
  "pendingTimers (nextNote (scheduleNote rnd c b t s)) = pendingTimers s"
  "timerCount (nextNote (scheduleNote rnd c b t s)) = timerCount s"
proof -
  obtain ins where "emits t ins s (scheduleNote rnd c b t s)"
    using scheduleNote_emits by blast
  then show
    "ctx (nextNote (scheduleNote rnd c b t s)) = ctx s"
    "isMuted (nextNote (scheduleNote rnd c b t s)) = isMuted s"
    "isPlaying (nextNote (scheduleNote rnd c b t s)) = isPlaying s"
    "timerID (nextNote (scheduleNote rnd c b t s)) = timerID s"
    "intensity (nextNote (scheduleNote rnd c b t s)) = intensity s"
    "masterGain (nextNote (scheduleNote rnd c b t s)) = masterGain s"
    "reverbNode (nextNote (scheduleNote rnd c b t s)) = reverbNode s"
    "pendingTimers (nextNote (scheduleNote rnd c b t s)) = pendingTimers s"
    "timerCount (nextNote (scheduleNote rnd c b t s)) = timerCount s"
    by (simp_all add: nextNote_fields emits_fields)
qed


text \<open>The loop rule: total correctness of the look-ahead loop for a positive tempo.\<close>

lemma schedule_ahead_rule:
  assumes pos: "0 < tempo s"
    and stop: "\<And>u. tempo u = tempo s \<Longrightarrow> \<not> nextNoteTime u < now + scheduleAheadTime \<Longrightarrow> R u u"
    and step: "\<And>u u'. tempo u = tempo s \<Longrightarrow> nextNoteTime u < now + scheduleAheadTime \<Longrightarrow>
                 R (nextNote (scheduleNote rnd c (current16thNote u) (nextNoteTime u) u)) u' \<Longrightarrow> R u u'"
  shows "\<exists>s'. schedule_ahead rnd c now s = Some s' \<and> R s s'"
proof -
  define d where "d = (60 / tempo s) * (1 / 4)"
  have dpos: "0 < d"
    using pos by (simp add: d_def)
  have main: "tempo u = tempo s \<Longrightarrow> nat \<lceil>(now + scheduleAheadTime - nextNoteTime u) / d\<rceil> = n \<Longrightarrow>
              \<exists>s'. schedule_ahead rnd c now u = Some s' \<and> R u s'" for u n
  proof (induction n arbitrary: u)
    case 0
    have "\<lceil>(now + scheduleAheadTime - nextNoteTime u) / d\<rceil> \<le> 0"
      using 0(2) by simp
    then have "(now + scheduleAheadTime - nextNoteTime u) / d \<le> 0"
      by (simp add: ceiling_le_iff)
    then have "now + scheduleAheadTime - nextNoteTime u \<le> 0"
      using dpos by (simp add: divide_le_0_iff)
    then have ns: "\<not> nextNoteTime u < now + scheduleAheadTime"
      by simp
    have "schedule_ahead rnd c now u = Some u"
      using ns by (subst schedule_ahead.simps) simp
    then show ?case
      using stop [OF 0(1) ns] by simp
  next
    case (Suc n)
    show ?case
    proof (cases "nextNoteTime u < now + scheduleAheadTime")
      case False
      have "schedule_ahead rnd c now u = Some u"
        using False by (subst schedule_ahead.simps) simp
      then show ?thesis
        using stop [OF Suc(2) False] by simp
    next
      case True
      define b where "b = nextNote (scheduleNote rnd c (current16thNote u) (nextNoteTime u) u)"
      have tb: "tempo b = tempo s"
        using Suc(2) by (simp add: b_def step_tempo)
      have nb: "nextNoteTime b = nextNoteTime u + d"
        using Suc(2) by (simp add: b_def step_time d_def)
      have "(now + scheduleAheadTime - nextNoteTime b) / d =
            (now + scheduleAheadTime - nextNoteTime u) / d - 1"
        using dpos by (simp add: nb field_simps)
      then have "\<lceil>(now + scheduleAheadTime - nextNoteTime b) / d\<rceil> =
            \<lceil>(now + scheduleAheadTime - nextNoteTime u) / d\<rceil> - 1"
        by simp
      then have "nat \<lceil>(now + scheduleAheadTime - nextNoteTime b) / d\<rceil> = n"
        using Suc(3) by simp
      then obtain s' where s': "schedule_ahead rnd c now b = Some s'" "R b s'"
        using Suc(1) [OF tb] by blast
      have "schedule_ahead rnd c now u = schedule_ahead rnd c now b"
        using True by (subst schedule_ahead.simps) (simp add: b_def)
      moreover have "R u s'"
        using step [OF Suc(2) True] s'(2) by (simp add: b_def)
      ultimately show ?thesis
        using s'(1) by simp
    qed
  qed
  show ?thesis
    by (rule main [OF refl refl])
qed

lemma schedule_ahead_frame:
  assumes "0 < tempo s"
  shows "\<exists>s'. schedule_ahead rnd c now s = Some s' \<and>
           tempo s' = tempo s \<and> ctx s' = ctx s \<and> isMuted s' = isMuted s \<and>
           isPlaying s' = isPlaying s \<and> timerID s' = timerID s \<and> intensity s' = intensity s \<and>
           masterGain s' = masterGain s \<and> reverbNode s' = reverbNode s \<and>
           pendingTimers s' = pendingTimers s \<and> timerCount s' = timerCount s"
  by (rule schedule_ahead_rule [OF assms]) (simp_all add: step_fields step_tempo)


lemma setTimeout_fields:
  "fst (setTimeout s) = timerCount s + 1"
  "pendingTimers (snd (setTimeout s)) = insert (timerCount s + 1) (pendingTimers s)"
  "timerCount (snd (setTimeout s)) = timerCount s + 1"
  "voices (snd (setTimeout s)) = voices s" "tempo (snd (setTimeout s)) = tempo s"
  "nextNoteTime (snd (setTimeout s)) = nextNoteTime s"
  "current16thNote (snd (setTimeout s)) = current16thNote s"
  "isMuted (snd (setTimeout s)) = isMuted s" "isPlaying (snd (setTimeout s)) = isPlaying s"
  "ctx (snd (setTimeout s)) = ctx s" "intensity (snd (setTimeout s)) = intensity s"
  "masterGain (snd (setTimeout s)) = masterGain s" "reverbNode (snd (setTimeout s)) = reverbNode s"
  "randomCalls (snd (setTimeout s)) = randomCalls s"
  by (simp_all add: setTimeout_def Let_def)

lemma scheduler_playing:
  assumes "isPlaying s" and "ctx s = Some c" and "schedule_ahead rnd c now s = Some s1"
  shows "scheduler rnd now s = Some ((snd (setTimeout s1))\<lparr>timerID := Some (timerCount s1 + 1)\<rparr>)"
  using assms by (simp add: scheduler_def setTimeout_def Let_def)




section \<open>Scheduling while muted\<close>

lemma schedule_ahead_stop:
  "\<not> nextNoteTime u < now + scheduleAheadTime \<Longrightarrow> schedule_ahead rnd c now u = Some u"
  by (subst schedule_ahead.simps) simp



lemma nextNote_funpow_muted: "isMuted ((nextNote ^^ n) s) = isMuted s"
  by (induction n) (simp_all add: nextNote_fields)




section \<open>Starting the music\<close>

lemma stopBGM_fields:
  "isPlaying (stopBGM s) = False"
  "pendingTimers (stopBGM s) = pendingTimers s - set_option (timerID s)"
  "timerCount (stopBGM s) = timerCount s" "voices (stopBGM s) = voices s"
  "ctx (stopBGM s) = ctx s" "isMuted (stopBGM s) = isMuted s" "timerID (stopBGM s) = timerID s"
  "tempo (stopBGM s) = tempo s" "nextNoteTime (stopBGM s) = nextNoteTime s"
  "current16thNote (stopBGM s) = current16thNote s" "intensity (stopBGM s) = intensity s"
  "masterGain (stopBGM s) = masterGain s" "reverbNode (stopBGM s) = reverbNode s"
  "randomCalls (stopBGM s) = randomCalls s"
  by (simp_all add: stopBGM_def clearTimeout_def split: option.splits)

lemma stopped_no_timers:
  "timers_ok s \<Longrightarrow> pendingTimers (if isPlaying s then stopBGM s else s) = {}"
  by (auto simp add: timers_ok_def stopBGM_fields)

text \<open>
  C3. From every state in which at most the stored timeout is pending, \<^verbatim>\<open>startBGM\<close>
  returns. It is the first tick (\<^verbatim>\<open>scheduler\<close>) run on the state obtained by stopping a
  playing session, initialising, and then setting the intensity, the playing flag, step 0,
  tempo 135 for high and 100 for low intensity, and the next event time \<open>now + 0.1\<close>;
  after the stop no timeout is pending, and in the end exactly one is, the new one. The
  first tick schedules no voice (the first event lies at the end of the look-ahead
  window), so these transport values are also those of the state returned.
\<close>

theorem startBGM_restart:
  assumes "timers_ok s"
  shows "\<exists>s'. startBGM pow rnd device now level s = Some s' \<and>
           startBGM pow rnd device now level s =
             scheduler rnd now
               ((init pow rnd device (if isPlaying s then stopBGM s else s))
                  \<lparr>intensity := level, isPlaying := True, current16thNote := 0,
                   tempo := (if level = High then 135 else 100),
                   nextNoteTime := now + 1 / 10\<rparr>) \<and>
           pendingTimers (if isPlaying s then stopBGM s else s) = {} \<and>
           isPlaying s' \<and> intensity s' = level \<and> current16thNote s' = 0 \<and>
           tempo s' = (if level = High then 135 else 100) \<and>
           nextNoteTime s' = now + 1 / 10 \<and>
           voices s' = voices s \<and>
           timerID s' = Some (timerCount s + 1) \<and>
           pendingTimers s' = {timerCount s + 1} \<and>
           timerCount s' = timerCount s + 1 \<and>
           timers_ok s'"
proof -
  define s1 where "s1 = (if isPlaying s then stopBGM s else s)"
  define p where "p = (init pow rnd device s1)
                  \<lparr>intensity := level, isPlaying := True, current16thNote := 0,
                   tempo := (if level = High then 135 else 100),
                   nextNoteTime := now + 1 / 10\<rparr>"
  obtain c where c: "ctx (init pow rnd device s1) = Some c"
    using init_ctx [of pow rnd device s1] by blast
  have start: "startBGM pow rnd device now level s = scheduler rnd now p"
    by (simp add: startBGM_def Let_def s1_def [symmetric] c p_def)
  have none: "pendingTimers s1 = {}"
    unfolding s1_def using assms by (rule stopped_no_timers)
  have count: "timerCount s1 = timerCount s" and vs: "voices s1 = voices s"
    by (simp_all add: s1_def stopBGM_fields)
  have "\<not> nextNoteTime p < now + scheduleAheadTime"
    by (simp add: p_def scheduleAheadTime_def)
  then have loop: "schedule_ahead rnd c now p = Some p"
    by (rule schedule_ahead_stop)
  have "isPlaying p" and "ctx p = Some c"
    by (simp_all add: p_def c)
  then have run: "scheduler rnd now p = Some ((snd (setTimeout p))\<lparr>timerID := Some (timerCount p + 1)\<rparr>)"
    using loop by (rule scheduler_playing)
  define s' where "s' = (snd (setTimeout p))\<lparr>timerID := Some (timerCount p + 1)\<rparr>"
  have fields: "isPlaying s'" "intensity s' = level" "current16thNote s' = 0"
    "tempo s' = (if level = High then 135 else 100)" "nextNoteTime s' = now + 1 / 10"
    "voices s' = voices s" "timerID s' = Some (timerCount s + 1)"
    "pendingTimers s' = {timerCount s + 1}" "timerCount s' = timerCount s + 1"
    by (simp_all add: s'_def setTimeout_fields p_def init_fields none count vs)
  then have "timers_ok s'"
    by (simp add: timers_ok_def)
  then show ?thesis
    using start run fields none
    unfolding s'_def [symmetric] p_def [symmetric] s1_def [symmetric]
    by (intro exI [of _ s']) simp
qed

lemma new_AudioService_timers_ok: "timers_ok new_AudioService"
  by (simp add: timers_ok_def new_AudioService_def)

theorem startBGM_restart_witness:
  "\<exists>s1 s2. startBGM Math_pow (constant_draws (1 / 2)) example_context 0 Low new_AudioService = Some s1 \<and>
      tempo s1 = 100 \<and> pendingTimers s1 = {1} \<and>
      startBGM Math_pow (constant_draws (1 / 2)) example_context 5 High s1 = Some s2 \<and>
      isPlaying s2 \<and> current16thNote s2 = 0 \<and> tempo s2 = 135 \<and> nextNoteTime s2 = 5 + 1 / 10 \<and>
      pendingTimers s2 = {2} \<and> timerID s2 = Some 2"
proof -
  obtain s1 where s1: "startBGM Math_pow (constant_draws (1 / 2)) example_context 0 Low new_AudioService = Some s1"
      "tempo s1 = 100" "pendingTimers s1 = {1}" "timerCount s1 = 1" "timers_ok s1"
    using startBGM_restart [OF new_AudioService_timers_ok, of Math_pow "constant_draws (1 / 2)"
        example_context 0 Low]
    by (auto simp add: new_AudioService_def)
  obtain s2 where "startBGM Math_pow (constant_draws (1 / 2)) example_context 5 High s1 = Some s2"
      "isPlaying s2" "current16thNote s2 = 0" "tempo s2 = 135" "nextNoteTime s2 = 5 + 1 / 10"
      "pendingTimers s2 = {2}" "timerID s2 = Some 2"
    using startBGM_restart [OF s1(5), of Math_pow "constant_draws (1 / 2)" example_context 5 High]
    by (auto simp add: s1(4))
  with s1 show ?thesis
    by blast
qed

section \<open>The impulse response\<close>

lemma impulse_loop_run:
  assumes V: "\<And>r j. V r j = Math_fround (round_double
             (round_double (round_double (r * 2) - 1) *
              pow (round_double (1 - round_double
                ((if reverse then round_double (real n - real j) else real j) / real n))) decay))"
    and "n - i = d" and "i \<le> n" and "length left = n" and "length right = n"
  shows "\<exists>left' right'.
           impulse_loop pow rnd (real n) decay reverse i (left, right, k) =
             (left', right', k + 2 * (n - i)) \<and>
           length left' = n \<and> length right' = n \<and>
           (\<forall>j<n. left' ! j = (if j < i then left ! j else V (rnd (k + 2 * (j - i))) j) \<and>
                  right' ! j = (if j < i then right ! j else V (rnd (k + 2 * (j - i) + 1)) j))"
  using assms(2-)
proof (induction d arbitrary: i left right k)
  case 0
  then have "i = n" by simp
  then have "impulse_loop pow rnd (real n) decay reverse i (left, right, k) = (left, right, k)"
    by (subst impulse_loop.simps) simp
  then show ?case
    using 0 by simp
next
  case (Suc d)
  then have lt: "i < n" by simp
  have unfold: "impulse_loop pow rnd (real n) decay reverse i (left, right, k) =
        impulse_loop pow rnd (real n) decay reverse (i + 1)
          (left[i := V (rnd k) i], right[i := V (rnd (k + 1)) i], k + 2)"
    using lt by (subst impulse_loop.simps) (simp add: V Let_def)
  have "n - (i + 1) = d" "i + 1 \<le> n" "length (left[i := V (rnd k) i]) = n"
    "length (right[i := V (rnd (k + 1)) i]) = n"
    using Suc.prems by simp_all
  from Suc.IH [OF this, of "k + 2"]
  obtain left' right' where run:
      "impulse_loop pow rnd (real n) decay reverse (i + 1)
         (left[i := V (rnd k) i], right[i := V (rnd (k + 1)) i], k + 2) =
         (left', right', k + 2 + 2 * (n - (i + 1)))"
      "length left' = n" "length right' = n"
    and vals: "\<forall>j<n. left' ! j =
                     (if j < i + 1 then left[i := V (rnd k) i] ! j
                      else V (rnd (k + 2 + 2 * (j - (i + 1)))) j) \<and>
                  right' ! j =
                     (if j < i + 1 then right[i := V (rnd (k + 1)) i] ! j
                      else V (rnd (k + 2 + 2 * (j - (i + 1)) + 1)) j)"
    by blast
  have count: "k + 2 + 2 * (n - (i + 1)) = k + 2 * (n - i)"
    using lt by simp
  have "left' ! j = (if j < i then left ! j else V (rnd (k + 2 * (j - i))) j) \<and>
        right' ! j = (if j < i then right ! j else V (rnd (k + 2 * (j - i) + 1)) j)"
    if j: "j < n" for j
  proof -
    consider "j < i" | "j = i" | "i < j" by linarith
    then show ?thesis
    proof cases
      case 1
      then show ?thesis using vals j by simp
    next
      case 2
      then show ?thesis using vals j lt Suc.prems(3,4) by simp
    next
      case 3
      then have e: "k + 2 + 2 * (j - (i + 1)) = k + 2 * (j - i)" by simp
      have n: "\<not> j < i + 1" "\<not> j < i" using 3 by simp_all
      show ?thesis
        using vals [rule_format, OF j] unfolding e by (simp only: n if_False)
    qed
  qed
  then show ?case
    using run unfold count by simp
qed

lemma createBuffer_2: "createBuffer 2 (real n) = [replicate n 0, replicate n 0]"
  by (simp add: createBuffer_def numeral_2_eq_2)

lemma createImpulseResponse_run:
  assumes "round_double (sampleRate c * duration) = real n"
  shows "\<exists>left right.
           createImpulseResponse pow rnd c duration decay reverse k = ([left, right], k + 2 * n) \<and>
           length left = n \<and> length right = n \<and>
           (\<forall>i<n. left ! i =
                    Math_fround (round_double
                      (round_double (round_double (rnd (k + 2 * i) * 2) - 1) *
                       pow (round_double (1 - round_double
                         ((if reverse then round_double (real n - real i) else real i) / real n)))
                         decay)) \<and>
                  right ! i =
                    Math_fround (round_double
                      (round_double (round_double (rnd (k + 2 * i + 1) * 2) - 1) *
                       pow (round_double (1 - round_double
                         ((if reverse then round_double (real n - real i) else real i) / real n)))
                         decay)))"
proof -
  define V where "V r j = Math_fround (round_double
             (round_double (round_double (r * 2) - 1) *
              pow (round_double (1 - round_double
                ((if reverse then round_double (real n - real j) else real j) / real n))) decay))"
    for r :: real and j :: nat
  obtain left right where run:
      "impulse_loop pow rnd (real n) decay reverse 0 (replicate n 0, replicate n 0, k) =
         (left, right, k + 2 * (n - 0))"
      "length left = n" "length right = n"
    and vals: "\<forall>j<n. left ! j = (if j < 0 then replicate n 0 ! j else V (rnd (k + 2 * (j - 0))) j) \<and>
                  right ! j = (if j < 0 then replicate n 0 ! j else V (rnd (k + 2 * (j - 0) + 1)) j)"
  proof -
    have Veq: "\<And>r j. V r j = Math_fround (round_double
             (round_double (round_double (r * 2) - 1) *
              pow (round_double (1 - round_double
                ((if reverse then round_double (real n - real j) else real j) / real n))) decay))"
      by (simp add: V_def)
    have "n - 0 = n" "0 \<le> n" "length (replicate n (0 :: real)) = n"
      by simp_all
    from impulse_loop_run [where V = V and pow = pow and reverse = reverse and n = n
          and decay = decay and i = 0 and d = n and left = "replicate n 0"
          and right = "replicate n 0" and rnd = rnd and k = k, OF Veq this(1,2,3,3)] that
    show ?thesis
      by (elim exE conjE)
  qed
  have res: "createImpulseResponse pow rnd c duration decay reverse k = ([left, right], k + 2 * n)"
    using run(1) by (simp add: createImpulseResponse_def assms createBuffer_2 Let_def)
  show ?thesis
    using res run(2,3) vals by (intro exI [of _ left] exI [of _ right]) (simp add: V_def)
qed

text \<open>
  C8, as amended. When the double \<open>sampleRate * duration\<close> is a positive whole number \<open>n\<close>,
  \<^verbatim>\<open>createImpulseResponse\<close> returns two channels of \<open>n\<close> samples each, having made
  \<open>2 * n\<close> random draws. Sample \<open>i\<close> of the left channel comes from draw \<open>2 * i\<close> of the
  call and sample \<open>i\<close> of the right channel from draw \<open>2 * i + 1\<close> (so no two samples share
  a draw). The stored sample is not the real product: it is the single-precision rounding
  (the store into a \<^verbatim>\<open>Float32Array\<close>) of the double product of \<open>draw * 2 - 1\<close> and
  \<^verbatim>\<open>Math.pow(1 - m / n, decay)\<close>, every operation rounded to a double, where \<open>m = n - i\<close>
  when \<open>reverse\<close> is set and \<open>m = i\<close> otherwise. Nothing but the three arguments, the
  context's sample rate, the engine's \<^verbatim>\<open>Math.pow\<close> and the draws enters the result.
\<close>

theorem impulse_response_samples:
  assumes "round_double (sampleRate c * duration) = real n" and "0 < n"
  shows "\<exists>left right.
           createImpulseResponse pow rnd c duration decay reverse k = ([left, right], k + 2 * n) \<and>
           length left = n \<and> length right = n \<and>
           (\<forall>i<n. left ! i =
                    Math_fround (round_double
                      (round_double (round_double (rnd (k + 2 * i) * 2) - 1) *
                       pow (round_double (1 - round_double
                         ((if reverse then round_double (real n - real i) else real i) / real n)))
                         decay)) \<and>
                  right ! i =
                    Math_fround (round_double
                      (round_double (round_double (rnd (k + 2 * i + 1) * 2) - 1) *
                       pow (round_double (1 - round_double
                         ((if reverse then round_double (real n - real i) else real i) / real n)))
                         decay)))"
  using assms(1) by (rule createImpulseResponse_run)

lemma example_length: "round_double (sampleRate example_context * 2) = real 88200"
  by (simp add: example_context_def rounding_eval)

lemma pos88200: "0 < (88200 :: nat)"
  by simp

lemma example_sample_1:
  "Math_fround (round_double
     (round_double (round_double (3 / 4 * 2) - 1) *
      Math_pow (round_double (1 - round_double (real 1 / real 88200))) 2)) = 4194209 / 8388608"
proof -
  have "round_double (1 - round_double (real 1 / real 88200)) = 4503548566150231 / 4503599627370496"
    by (simp add: rounding_eval)
  moreover have "Math_pow (4503548566150231 / 4503599627370496) 2 =
      9006995011017783 / 9007199254740992"
    by (simp add: Math_pow_def rounding_eval power2_eq_square)
  moreover have "round_double (round_double (3 / 4 * 2) - 1) = 1 / 2"
    by (simp add: rounding_eval)
  moreover have "Math_fround (round_double (1 / 2 * (9006995011017783 / 9007199254740992))) =
      4194209 / 8388608"
    by (simp add: rounding_eval)
  ultimately show ?thesis
    by (simp only:)
qed

lemma example_sample_0:
  "Math_fround (round_double
     (round_double (round_double (5404319552844595 / 18014398509481984 * 2) - 1) *
      Math_pow (round_double (1 - round_double (real 0 / real 88200))) 2)) =
   - (13421773 / 33554432)"
proof -
  have "round_double (1 - round_double (real 0 / real 88200)) = 1"
    by (simp add: rounding_eval)
  moreover have "Math_pow 1 2 = 1"
    by (simp add: Math_pow_def rounding_eval)
  moreover have "round_double (round_double (5404319552844595 / 18014398509481984 * 2) - 1) =
      - (3602879701896397 / 9007199254740992)"
    by (simp add: rounding_eval)
  moreover have "Math_fround (round_double (- (3602879701896397 / 9007199254740992) * 1)) =
      - (13421773 / 33554432)"
    by (simp add: rounding_eval)
  ultimately show ?thesis
    by (simp only:)
qed

text \<open>
  With a sample rate of 44100, two seconds, decay 2 and every draw 3/4, sample 1 of either
  channel is 4194209 / 8388608, the single-precision neighbour of
  \<open>1 / 2 * (1 - 1 / 88200)\<^sup>2\<close>.
\<close>

theorem impulse_response_samples_witness:
  "\<exists>left right.
     createImpulseResponse Math_pow (constant_draws (3 / 4)) example_context 2 2 False 0 =
       ([left, right], 176400) \<and>
     length left = 88200 \<and> length right = 88200 \<and>
     left ! 1 = 4194209 / 8388608 \<and> right ! 1 = 4194209 / 8388608"
proof -
  from impulse_response_samples [where pow = Math_pow and rnd = "constant_draws (3 / 4)"
      and c = example_context and duration = 2 and decay = 2 and reverse = False and k = 0
      and n = 88200, OF example_length pos88200]
  obtain left right where r:
      "createImpulseResponse Math_pow (constant_draws (3 / 4)) example_context 2 2 False 0 =
         ([left, right], 0 + 2 * 88200)"
      "length left = 88200" "length right = 88200"
    and v: "\<forall>i<88200. left ! i =
                    Math_fround (round_double
                      (round_double (round_double (constant_draws (3 / 4) (0 + 2 * i) * 2) - 1) *
                       Math_pow (round_double (1 - round_double
                         ((if False then round_double (real 88200 - real i) else real i) / real 88200)))
                         2)) \<and>
                  right ! i =
                    Math_fround (round_double
                      (round_double (round_double (constant_draws (3 / 4) (0 + 2 * i + 1) * 2) - 1) *
                       Math_pow (round_double (1 - round_double
                         ((if False then round_double (real 88200 - real i) else real i) / real 88200)))
                         2))"
    by (elim exE conjE)
  have one: "(1 :: nat) < 88200"
    by simp
  have "left ! 1 = 4194209 / 8388608 \<and> right ! 1 = 4194209 / 8388608"
    using v [rule_format, OF one] by (simp only: constant_draws_def if_False example_sample_1)
  then show ?thesis
    using r by simp
qed

text \<open>
  C8 as stated fails: the sample is not the product itself. With the draw nearest to 0.3
  the product at index 0 is the double -3602879701896397 / 9007199254740992, which single
  precision cannot hold: the channel stores -13421773 / 33554432.
\<close>

theorem impulse_response_exact_counterexample:
  "fst (createImpulseResponse Math_pow
          (constant_draws (5404319552844595 / 18014398509481984)) example_context 2 2 False 0)
     ! 0 ! 0 = - (13421773 / 33554432) \<and>
   (constant_draws (5404319552844595 / 18014398509481984) 0 * 2 - 1) *
     (1 - 0 / (sampleRate example_context * 2)) powr 2 =
     - (3602879701896397 / 9007199254740992) \<and>
   - (13421773 / 33554432) \<noteq> (- (3602879701896397 / 9007199254740992) :: real)"
proof -
  from createImpulseResponse_run [where pow = Math_pow
      and rnd = "constant_draws (5404319552844595 / 18014398509481984)"
      and c = example_context and duration = 2 and decay = 2 and reverse = False and k = 0
      and n = 88200, OF example_length]
  obtain left right where r:
      "createImpulseResponse Math_pow (constant_draws (5404319552844595 / 18014398509481984))
         example_context 2 2 False 0 = ([left, right], 0 + 2 * 88200)"
    and v: "\<forall>i<88200. left ! i =
                    Math_fround (round_double
                      (round_double (round_double
                         (constant_draws (5404319552844595 / 18014398509481984) (0 + 2 * i) * 2) - 1) *
                       Math_pow (round_double (1 - round_double
                         ((if False then round_double (real 88200 - real i) else real i) / real 88200)))
                         2)) \<and>
                  right ! i =
                    Math_fround (round_double
                      (round_double (round_double
                         (constant_draws (5404319552844595 / 18014398509481984) (0 + 2 * i + 1) * 2) - 1) *
                       Math_pow (round_double (1 - round_double
                         ((if False then round_double (real 88200 - real i) else real i) / real 88200)))
                         2))"
    by (elim exE conjE)
  have zero: "(0 :: nat) < 88200"
    by simp
  have "left ! 0 = - (13421773 / 33554432)"
    using v [rule_format, OF zero, THEN conjunct1]
    by (simp only: constant_draws_def if_False example_sample_0 mult_zero_right add_0)
  then have "fst (createImpulseResponse Math_pow
          (constant_draws (5404319552844595 / 18014398509481984)) example_context 2 2 False 0)
     ! 0 ! 0 = - (13421773 / 33554432)"
    by (simp add: r)
  then show ?thesis
    by (simp add: constant_draws_def example_context_def)
qed

section \<open>The states the service reaches\<close>

text \<open>
  Every state reached from a new service satisfies the invariant: at most the stored
  timeout is pending, the tempo is one of 120, 100 and 135, the step counter is below 16,
  and the context, the master gain and the reverb exist together, and exist while the
  service is playing. So the hypotheses of the theorems above hold of every state the
  methods are called in, and \<^verbatim>\<open>startBGM\<close> and the timer callback return there.
\<close>

lemma service_ok_new: "service_ok new_AudioService"
  by (simp add: service_ok_def timers_ok_def new_AudioService_def)

lemma init_graph:
  "(masterGain (init pow rnd d s) = None) = (case ctx s of None \<Rightarrow> False | Some c \<Rightarrow> masterGain s = None)"
  "(reverbNode (init pow rnd d s) = None) = (case ctx s of None \<Rightarrow> False | Some c \<Rightarrow> reverbNode s = None)"
  by (simp_all add: init_def Let_def split: option.splits prod.splits)

lemma service_ok_fields:
  assumes "service_ok s"
    and "isPlaying s' = isPlaying s" and "pendingTimers s' = pendingTimers s"
    and "timerID s' = timerID s" and "tempo s' = tempo s"
    and "current16thNote s' = current16thNote s" and "ctx s' = None \<longleftrightarrow> ctx s = None"
    and "masterGain s' = None \<longleftrightarrow> masterGain s = None"
    and "reverbNode s' = None \<longleftrightarrow> reverbNode s = None"
  shows "service_ok s'"
  using assms unfolding service_ok_def timers_ok_def by simp

lemma service_ok_init: "service_ok s \<Longrightarrow> service_ok (init pow rnd d s)"
  unfolding service_ok_def timers_ok_def
  by (cases "ctx s") (auto simp add: init_fields init_ctx init_graph)

lemma playSliceSfx_fields:
  "isPlaying (playSliceSfx now s) = isPlaying s" "pendingTimers (playSliceSfx now s) = pendingTimers s"
  "timerID (playSliceSfx now s) = timerID s" "tempo (playSliceSfx now s) = tempo s"
  "current16thNote (playSliceSfx now s) = current16thNote s" "ctx (playSliceSfx now s) = ctx s"
  "masterGain (playSliceSfx now s) = masterGain s" "reverbNode (playSliceSfx now s) = reverbNode s"
  by (simp_all add: playSliceSfx_def Let_def)

lemma playBombSfx_fields:
  "isPlaying (playBombSfx rnd now s) = isPlaying s"
  "pendingTimers (playBombSfx rnd now s) = pendingTimers s"
  "timerID (playBombSfx rnd now s) = timerID s" "tempo (playBombSfx rnd now s) = tempo s"
  "current16thNote (playBombSfx rnd now s) = current16thNote s"
  "ctx (playBombSfx rnd now s) = ctx s" "masterGain (playBombSfx rnd now s) = masterGain s"
  "reverbNode (playBombSfx rnd now s) = reverbNode s"
  by (simp_all add: playBombSfx_def Let_def split: option.splits prod.splits)

lemma toggleMute_fields:
  "isPlaying (toggleMute now s) = isPlaying s" "pendingTimers (toggleMute now s) = pendingTimers s"
  "timerID (toggleMute now s) = timerID s" "tempo (toggleMute now s) = tempo s"
  "current16thNote (toggleMute now s) = current16thNote s" "ctx (toggleMute now s) = ctx s"
  "(masterGain (toggleMute now s) = None) = (masterGain s = None)"
  "reverbNode (toggleMute now s) = reverbNode s"
  by (simp_all add: toggleMute_def Let_def split: option.splits)

lemma service_ok_playSliceSfx: "service_ok s \<Longrightarrow> service_ok (playSliceSfx now s)"
  by (simp add: service_ok_def timers_ok_def playSliceSfx_fields)

lemma service_ok_playBombSfx: "service_ok s \<Longrightarrow> service_ok (playBombSfx rnd now s)"
  by (simp add: service_ok_def timers_ok_def playBombSfx_fields)

lemma service_ok_toggleMute: "service_ok s \<Longrightarrow> service_ok (toggleMute now s)"
  by (simp add: service_ok_def timers_ok_def toggleMute_fields)

lemma service_ok_stopBGM: "service_ok s \<Longrightarrow> service_ok (stopBGM s)"
  by (cases "isPlaying s") (simp_all add: service_ok_def timers_ok_def stopBGM_fields)

lemma schedule_ahead_step_range:
  assumes "0 < tempo s"
  shows "\<exists>s'. schedule_ahead rnd c now s = Some s' \<and>
           (current16thNote s < 16 \<longrightarrow> current16thNote s' < 16)"
  by (rule schedule_ahead_rule [OF assms]) (simp_all add: step_current16thNote)

lemma scheduler_ok:
  assumes "service_ok s" and "pendingTimers s = {}"
  shows "\<exists>s'. scheduler rnd now s = Some s' \<and> service_ok s'"
proof (cases "isPlaying s")
  case False
  then show ?thesis
    using assms by (simp add: scheduler_def)
next
  case True
  then obtain c where c: "ctx s = Some c"
    using assms(1) by (auto simp add: service_ok_def)
  have pos: "0 < tempo s"
    using assms(1) by (auto simp add: service_ok_def)
  obtain s1 where s1: "schedule_ahead rnd c now s = Some s1"
    and frame: "tempo s1 = tempo s" "ctx s1 = ctx s" "isPlaying s1 = isPlaying s"
      "masterGain s1 = masterGain s" "reverbNode s1 = reverbNode s"
      "pendingTimers s1 = pendingTimers s"
    using schedule_ahead_frame [OF pos, of rnd c now] by blast
  obtain s1' where "schedule_ahead rnd c now s = Some s1'"
    "current16thNote s < 16 \<longrightarrow> current16thNote s1' < 16"
    using schedule_ahead_step_range [OF pos, of rnd c now] by blast
  then have range: "current16thNote s1 < 16"
    using s1 assms(1) by (simp add: service_ok_def)
  define s' where "s' = (snd (setTimeout s1))\<lparr>timerID := Some (timerCount s1 + 1)\<rparr>"
  have run: "scheduler rnd now s = Some s'"
    unfolding s'_def using True c s1 by (rule scheduler_playing)
  have "timers_ok s'"
    using True by (simp add: timers_ok_def s'_def setTimeout_fields frame assms(2))
  moreover have "tempo s' \<in> {120, 100, 135}"
    using assms(1) by (simp add: service_ok_def s'_def setTimeout_fields frame)
  moreover have "current16thNote s' < 16"
    using range by (simp add: s'_def setTimeout_fields)
  moreover have "ctx s' \<noteq> None"
    by (simp add: s'_def setTimeout_fields frame c)
  moreover have "masterGain s' \<noteq> None" "reverbNode s' \<noteq> None"
    using assms(1) c by (simp_all add: service_ok_def s'_def setTimeout_fields frame)
  ultimately have "service_ok s'"
    by (auto simp add: service_ok_def)
  with run show ?thesis
    by simp
qed

lemma service_ok_timeout_fires:
  assumes "service_ok s"
  shows "\<exists>s'. timeout_fires rnd now i s = Some s' \<and> service_ok s'"
proof (cases "i \<in> pendingTimers s")
  case False
  then show ?thesis
    using assms by (simp add: timeout_fires_def)
next
  case True
  have "isPlaying s"
    using True assms by (cases "isPlaying s") (simp_all add: service_ok_def timers_ok_def)
  then have sub: "pendingTimers s \<subseteq> set_option (timerID s)"
    using assms by (simp add: service_ok_def timers_ok_def)
  then have only: "pendingTimers s - {i} = {}"
    using True by (cases "timerID s") auto
  have "service_ok (s\<lparr>pendingTimers := {}\<rparr>)"
    using assms by (cases "isPlaying s") (simp_all add: service_ok_def timers_ok_def)
  then have "\<exists>s'. scheduler rnd now (s\<lparr>pendingTimers := {}\<rparr>) = Some s' \<and> service_ok s'"
    by (rule scheduler_ok) simp
  then show ?thesis
    using True by (simp add: timeout_fires_def only)
qed

lemma service_ok_startBGM:
  assumes "service_ok s"
  shows "\<exists>s'. startBGM pow rnd device now level s = Some s' \<and> service_ok s'"
proof -
  define s1 where "s1 = (if isPlaying s then stopBGM s else s)"
  define p where "p = (init pow rnd device s1)
                  \<lparr>intensity := level, isPlaying := True, current16thNote := 0,
                   tempo := (if level = High then 135 else 100),
                   nextNoteTime := now + 1 / 10\<rparr>"
  have ok1: "service_ok s1"
    using assms by (simp add: s1_def service_ok_stopBGM)
  have "timers_ok s"
    using assms by (simp add: service_ok_def)
  then have none: "pendingTimers s1 = {}"
    unfolding s1_def by (rule stopped_no_timers)
  have oki: "service_ok (init pow rnd device s1)"
    using ok1 by (rule service_ok_init)
  have pend: "pendingTimers p = {}"
    by (simp add: p_def init_fields none)
  have "timers_ok p"
    by (simp add: timers_ok_def pend)
  moreover have "tempo p \<in> {120, 100, 135}" "current16thNote p < 16"
    by (simp_all add: p_def)
  moreover have "ctx p = ctx (init pow rnd device s1)" "masterGain p = masterGain (init pow rnd device s1)"
    "reverbNode p = reverbNode (init pow rnd device s1)"
    by (simp_all add: p_def)
  ultimately have "service_ok p"
    using oki init_ctx [of pow rnd device s1] by (auto simp add: service_ok_def)
  then have "\<exists>s'. scheduler rnd now p = Some s' \<and> service_ok s'"
    using pend by (rule scheduler_ok)
  moreover obtain c where "ctx (init pow rnd device s1) = Some c"
    using init_ctx [of pow rnd device s1] by blast
  then have "startBGM pow rnd device now level s = scheduler rnd now p"
    by (simp add: startBGM_def Let_def s1_def [symmetric] p_def)
  ultimately show ?thesis
    by simp
qed

lemma reachable_service_ok: "reachable pow rnd device s \<Longrightarrow> service_ok s"
proof (induction rule: reachable.induct)
  case constructed
  show ?case by (rule service_ok_new)
next
  case (after_init s)
  then show ?case by (simp add: service_ok_init)
next
  case (after_playSliceSfx s now)
  then show ?case by (simp add: service_ok_playSliceSfx)
next
  case (after_playBombSfx s now)
  then show ?case by (simp add: service_ok_playBombSfx)
next
  case (after_startBGM s now level s')
  then show ?case using service_ok_startBGM [of s pow rnd device now level] by auto
next
  case (after_stopBGM s)
  then show ?case by (simp add: service_ok_stopBGM)
next
  case (after_toggleMute s now)
  then show ?case by (simp add: service_ok_toggleMute)
next
  case (after_timeout s now i s')
  then show ?case using service_ok_timeout_fires [of s rnd now i] by auto
qed

lemma reachable_returns:
  assumes "reachable pow rnd device s"
  shows "(\<exists>s'. startBGM pow rnd device now level s = Some s') \<and>
         (\<exists>s'. timeout_fires rnd now i s = Some s') \<and>
         timers_ok s \<and> 0 < tempo s \<and> current16thNote s < 16 \<and> (isPlaying s \<longrightarrow> ctx s \<noteq> None)"
proof -
  have ok: "service_ok s"
    using assms by (rule reachable_service_ok)
  have "0 < tempo s"
    using ok by (auto simp add: service_ok_def)
  then show ?thesis
    using service_ok_startBGM [OF ok, of pow rnd device now level]
      service_ok_timeout_fires [OF ok, of rnd now i] ok
    by (simp add: service_ok_def) blast
qed

end
